theory Spec2Isabelle
  imports Complex_Main "HOL-Library.Multiset"
begin

section \<open>The DALL-E mini inference notebook\<close>

text \<open>
  A shallow embedding of \<^verbatim>\<open>tools/inference/inference_pipeline.ipynb\<close>: tokenize the
  prompt, distribute it over the devices, generate image tokens in a loop, decode them
  with the VQGAN, score the images with CLIP and display them ranked by score.

  The three pretrained networks, the two tokenizer vocabularies and the random number
  generator are parameters of the model (the record \<open>models\<close>); what the notebook's own
  cells do with them (the call options, the loop bound, slicing, clipping, reshaping,
  flattening, sorting) is written out. Arrays are lists along their leading axis; a reshape keeps the row-major
  order of the elements. Pixel values and scores are real numbers: the IEEE special
  values of the notebook's float32 arrays are outside the model. The number of devices
  is one number \<open>W\<close> (one host: \<^verbatim>\<open>jax.device_count()\<close> and
  \<^verbatim>\<open>jax.local_device_count()\<close> agree).
\<close>

datatype error = ValueError | IndexError | ZeroDivisionError

subsection \<open>Arrays, reshape and shard\<close>

text \<open>\<open>split_rows r c xs\<close>: the \<open>r\<close> consecutive rows of \<open>c\<close> elements each of the
  flat sequence \<open>xs\<close>, as a row-major reshape reads them.\<close>

definition split_rows :: "nat \<Rightarrow> nat \<Rightarrow> 'a list \<Rightarrow> 'a list list" where
  "split_rows r c xs = map (\<lambda>i. take c (drop (i * c) xs)) [0..<r]"

text \<open>\<^verbatim>\<open>flax.training.common_utils.shard\<close> on one array:
  \<^verbatim>\<open>x.reshape((jax.local_device_count(), -1) + x.shape[1:])\<close>.
  The reshape raises when the leading dimension is not a multiple of the device count.\<close>

definition shard :: "nat \<Rightarrow> 'a list \<Rightarrow> error + 'a list list" where
  "shard W x =
     (if W = 0 \<or> length x mod W \<noteq> 0 then Inl ValueError
      else Inr (split_rows W (length x div W) x))"

text \<open>Modelled from the spec: the Device Distributor's "inverse operation to reassemble
  results", which the notebook has no function for (it merges the device axis back with
  \<^verbatim>\<open>reshape((-1, ...))\<close> and \<^verbatim>\<open>flatten()\<close>): the per-worker shards
  joined in worker order.\<close>

definition unshard :: "'a list list \<Rightarrow> 'a list" where
  "unshard shards = concat shards"

subsection \<open>Tokenizers\<close>

text \<open>A pretrained tokenizer: its vocabulary lookup (the token ids of a text, without
  special tokens) and its special token ids. The notebook's note on the dalle-mini
  tokenizer: 0 is BOS, 2 is EOS, 1 is the padding token.\<close>

record tokenizer_config =
  tokenize :: "string \<Rightarrow> int list"
  bos_token_id :: int
  eos_token_id :: int
  pad_token_id :: int

record 'a token_data =
  input_ids :: "'a list"
  attention_mask :: "'a list"

record ('a, 'p) clip_data = "'a token_data" +
  pixel_values :: "'p list"

text \<open>One text under \<^verbatim>\<open>padding="max_length", truncation=True, max_length=L\<close>:
  the ids are cut so that they fit with the two special tokens, BOS and EOS are put around
  them, and the row is filled with the padding token up to \<open>L\<close>; the attention mask is 1
  on the tokens and 0 on the padding.\<close>

definition with_special_tokens :: "tokenizer_config \<Rightarrow> int list \<Rightarrow> int list" where
  "with_special_tokens tk ids = [bos_token_id tk] @ ids @ [eos_token_id tk]"

definition encode_ids :: "tokenizer_config \<Rightarrow> nat \<Rightarrow> string \<Rightarrow> int list" where
  "encode_ids tk max_length text =
     (let ids = with_special_tokens tk (take (max_length - 2) (tokenize tk text))
      in ids @ replicate (max_length - length ids) (pad_token_id tk))"

definition encode_mask :: "tokenizer_config \<Rightarrow> nat \<Rightarrow> string \<Rightarrow> int list" where
  "encode_mask tk max_length text =
     (let n = length (with_special_tokens tk (take (max_length - 2) (tokenize tk text)))
      in replicate n 1 @ replicate (max_length - n) 0)"

definition tokenizer_call :: "tokenizer_config \<Rightarrow> string list \<Rightarrow> nat \<Rightarrow> (int list) token_data" where
  "tokenizer_call tk texts max_length =
     \<lparr>input_ids = map (encode_ids tk max_length) texts,
      attention_mask = map (encode_mask tk max_length) texts\<rparr>"

subsection \<open>The pretrained models and the random number generator\<close>

type_synonym image = "nat list"

text \<open>What the notebook loads or imports and then only calls: the text normalizer, the two
  tokenizers, \<^verbatim>\<open>model.generate\<close> (with its parameters), \<^verbatim>\<open>vqgan.decode_code\<close>,
  CLIP's image preprocessing and its similarity logit of one text and one image, and
  \<^verbatim>\<open>jax.random.PRNGKey(seed)\<close> and \<^verbatim>\<open>jax.random.split(key, num)\<close> over keys of
  some type \<open>'k\<close>.\<close>

record ('k, 'f) models =
  normalize_text :: bool
  text_normalizer :: "string \<Rightarrow> string"
  tokenizer :: tokenizer_config
  generate :: "(int list) token_data \<Rightarrow> 'k \<Rightarrow> nat option \<Rightarrow> real option \<Rightarrow> int list list"
  decode_code :: "int list list \<Rightarrow> real list"
  processor_tokenizer :: tokenizer_config
  feature_extractor :: "image \<Rightarrow> 'f"
  clip_logit :: "int list \<times> int list \<Rightarrow> 'f \<Rightarrow> real"
  PRNGKey :: "nat \<Rightarrow> 'k"
  random_split :: "'k \<Rightarrow> nat \<Rightarrow> 'k list"

text \<open>The shapes the notebook relies on: \<^verbatim>\<open>model.generate\<close> returns one token
  sequence for each row of its input batch, \<^verbatim>\<open>vqgan.decode_code\<close> returns
  \<open>256 \<times> 256 \<times> 3\<close> values for each sequence of its batch, and
  \<^verbatim>\<open>jax.random.split(key, num)\<close> returns \<open>num\<close> keys.\<close>

definition well_shaped :: "('k, 'f) models \<Rightarrow> bool" where
  "well_shaped m \<longleftrightarrow>
     (\<forall>tok k top_k top_p. length (generate m tok k top_k top_p) = length (input_ids tok)) \<and>
     (\<forall>b. length (decode_code m b) = length b * (256 * 256 * 3)) \<and>
     (\<forall>k num. length (random_split m k num) = num)"

text \<open>\<^verbatim>\<open>flax.training.common_utils.shard_prng_key\<close>:
  \<^verbatim>\<open>jax.random.split(prng_key, num=jax.local_device_count())\<close>.\<close>

definition shard_prng_key :: "('k, 'f) models \<Rightarrow> nat \<Rightarrow> 'k \<Rightarrow> 'k list" where
  "shard_prng_key m W k = random_split m k W"

subsection \<open>The parallel model functions\<close>

text \<open>\<^verbatim>\<open>jax.pmap\<close> runs the function once per device on the slices along the
  leading axis of its arguments, and raises when the leading axes differ in size.\<close>

definition p_generate ::
  "('k, 'f) models \<Rightarrow> (int list list) token_data \<Rightarrow> 'k list \<Rightarrow> nat option \<Rightarrow> real option
     \<Rightarrow> error + int list list list" where
  "p_generate m tokenized_prompt keys top_k top_p =
     (if length (input_ids tokenized_prompt) = length keys
         \<and> length (attention_mask tokenized_prompt) = length keys
      then Inr (map (\<lambda>d. generate m
                     \<lparr>input_ids = input_ids tokenized_prompt ! d,
                      attention_mask = attention_mask tokenized_prompt ! d\<rparr>
                     (keys ! d) top_k top_p) [0..<length keys])
      else Inl ValueError)"

definition p_decode :: "('k, 'f) models \<Rightarrow> int list list list \<Rightarrow> real list list" where
  "p_decode m indices = map (decode_code m) indices"

text \<open>\<^verbatim>\<open>clip(params=params, **inputs).logits_per_image\<close>: one row per image, one
  column per text, the entry being CLIP's similarity logit of that image and that text.\<close>

definition logits_per_image :: "('k, 'f) models \<Rightarrow> (int list, 'f) clip_data \<Rightarrow> real list list" where
  "logits_per_image m inputs =
     map (\<lambda>img. map (\<lambda>txt. clip_logit m txt img) (zip (input_ids inputs) (attention_mask inputs)))
       (pixel_values inputs)"

definition p_clip :: "('k, 'f) models \<Rightarrow> (int list list, 'f list) clip_data \<Rightarrow> error + real list list list" where
  "p_clip m inputs =
     (if length (input_ids inputs) = length (pixel_values inputs)
         \<and> length (attention_mask inputs) = length (pixel_values inputs)
      then Inr (map (\<lambda>d. logits_per_image m
                     \<lparr>input_ids = input_ids inputs ! d,
                      attention_mask = attention_mask inputs ! d,
                      pixel_values = pixel_values inputs ! d\<rparr>) [0..<length (pixel_values inputs)])
      else Inl ValueError)"

subsection \<open>Text prompt\<close>

definition processed_prompt :: "('k, 'f) models \<Rightarrow> string \<Rightarrow> string" where
  "processed_prompt m prompt = (if normalize_text m then text_normalizer m prompt else prompt)"

text \<open>The prompt repeated on each device, tokenized to 128 tokens, and sharded (the
  dictionary's arrays one by one).\<close>

definition tokenized_prompt :: "('k, 'f) models \<Rightarrow> nat \<Rightarrow> string \<Rightarrow> (int list) token_data" where
  "tokenized_prompt m W prompt =
     tokenizer_call (tokenizer m) (replicate W (processed_prompt m prompt)) 128"

definition shard_tokens :: "nat \<Rightarrow> (int list) token_data \<Rightarrow> error + (int list list) token_data" where
  "shard_tokens W d =
     (case shard W (input_ids d) of Inl e \<Rightarrow> Inl e
      | Inr ids \<Rightarrow>
          (case shard W (attention_mask d) of Inl e \<Rightarrow> Inl e
           | Inr am \<Rightarrow> Inr \<lparr>input_ids = ids, attention_mask = am\<rparr>))"

subsection \<open>Generate images\<close>

definition gen_top_k :: "nat option" where
  "gen_top_k = None"

definition gen_top_p :: "real option" where
  "gen_top_p = None"

text \<open>\<^verbatim>\<open>encoded_images.sequences[..., 1:]\<close>: the slice from position 1 along the
  last axis.\<close>

definition remove_bos :: "int list list list \<Rightarrow> int list list list" where
  "remove_bos sequences = map (map (drop 1)) sequences"

text \<open>\<^verbatim>\<open>ndarray.clip(a_min, a_max)\<close>, element by element.\<close>

definition clip :: "real \<Rightarrow> real \<Rightarrow> real \<Rightarrow> real" where
  "clip a_min a_max x = min a_max (max a_min x)"

text \<open>\<^verbatim>\<open>decoded_images.clip(0.0, 1.0).reshape((-1, 256, 256, 3))\<close> on the raw output
  of the decoder (one flat block of values per device): the reshape raises unless the
  values make whole images.\<close>

definition clip_reshape :: "real list list \<Rightarrow> error + real list list" where
  "clip_reshape decoded_images =
     (let flat = concat (map (map (clip 0 1)) decoded_images)
      in if length flat mod (256 * 256 * 3) \<noteq> 0 then Inl ValueError
         else Inr (split_rows (length flat div (256 * 256 * 3)) (256 * 256 * 3) flat))"

text \<open>\<^verbatim>\<open>Image.fromarray(np.asarray(img * 255, dtype=np.uint8))\<close>; the values are
  within 0 and 255 after the clip.\<close>

definition to_image :: "real list \<Rightarrow> image" where
  "to_image img = map (\<lambda>x. nat \<lfloor>x * 255\<rfloor>) img"

text \<open>One turn of the generation loop is recorded with the sub-key it drew, the keys it
  gave the devices and the token sequences the devices returned (BOS removed).\<close>

record 'k iteration =
  subkey :: 'k
  device_keys :: "'k list"
  encoded_images :: "int list list list"

record 'k gen_state =
  key :: 'k
  images :: "image list"
  iterations :: "'k iteration list"

definition generation_step ::
  "('k, 'f) models \<Rightarrow> nat \<Rightarrow> (int list list) token_data \<Rightarrow> 'k gen_state \<Rightarrow> error + 'k gen_state" where
  "generation_step m W tok s =
     (case random_split m (key s) 2 of
        [key', subkey'] \<Rightarrow>
          (case p_generate m tok (shard_prng_key m W subkey') gen_top_k gen_top_p of
             Inl e \<Rightarrow> Inl e
           | Inr generated \<Rightarrow>
               (let encoded = remove_bos generated
                in case clip_reshape (p_decode m encoded) of
                     Inl e \<Rightarrow> Inl e
                   | Inr decoded_images \<Rightarrow>
                       Inr \<lparr>key = key',
                            images = images s @ map to_image decoded_images,
                            iterations = iterations s @
                              [\<lparr>subkey = subkey',
                                device_keys = shard_prng_key m W subkey',
                                encoded_images = encoded\<rparr>]\<rparr>))
      | _ \<Rightarrow> Inl ValueError)"

text \<open>\<^verbatim>\<open>for i in trange(...)\<close>: the body, the given number of times.\<close>

fun generation_loop ::
  "('k, 'f) models \<Rightarrow> nat \<Rightarrow> (int list list) token_data \<Rightarrow> nat \<Rightarrow> 'k gen_state \<Rightarrow> error + 'k gen_state" where
  "generation_loop m W tok 0 s = Inr s"
| "generation_loop m W tok (Suc n) s =
     (case generation_step m W tok s of
        Inl e \<Rightarrow> Inl e
      | Inr s' \<Rightarrow> generation_loop m W tok n s')"

text \<open>The loop bound is \<^verbatim>\<open>n_predictions // jax.device_count()\<close>.\<close>

definition generate_images ::
  "('k, 'f) models \<Rightarrow> nat \<Rightarrow> (int list list) token_data \<Rightarrow> 'k \<Rightarrow> nat \<Rightarrow> error + 'k gen_state" where
  "generate_images m W tok key0 n_predictions =
     (if W = 0 then Inl ZeroDivisionError
      else generation_loop m W tok (n_predictions div W)
             \<lparr>key = key0, images = [], iterations = []\<rparr>)"

subsection \<open>CLIP scores\<close>

text \<open>\<^verbatim>\<open>processor(text=[prompt] * jax.device_count(), images=images, padding="max_length",
  max_length=77, truncation=True)\<close>: the processor first tokenizes the texts, here one copy
  per device of the prompt as the user typed it, with these options.\<close>

definition processor_text :: "('k, 'f) models \<Rightarrow> nat \<Rightarrow> string \<Rightarrow> (int list) token_data" where
  "processor_text m W prompt = tokenizer_call (processor_tokenizer m) (replicate W prompt) 77"

text \<open>Then it preprocesses the images and returns both together. The preprocessing reads
  \<^verbatim>\<open>images[0]\<close> to tell a batch from a single image, so an empty list of images
  raises \<^verbatim>\<open>IndexError\<close>.\<close>

definition clip_inputs ::
  "('k, 'f) models \<Rightarrow> nat \<Rightarrow> string \<Rightarrow> image list \<Rightarrow> error + (int list, 'f) clip_data" where
  "clip_inputs m W prompt imgs =
     (let t = processor_text m W prompt
      in if imgs = [] then Inl IndexError
         else Inr \<lparr>input_ids = input_ids t, attention_mask = attention_mask t,
                  pixel_values = map (feature_extractor m) imgs\<rparr>)"

definition shard_clip :: "nat \<Rightarrow> (int list, 'f) clip_data \<Rightarrow> error + (int list list, 'f list) clip_data" where
  "shard_clip W d =
     (case shard W (input_ids d) of Inl e \<Rightarrow> Inl e
      | Inr ids \<Rightarrow>
          (case shard W (attention_mask d) of Inl e \<Rightarrow> Inl e
           | Inr am \<Rightarrow>
               (case shard W (pixel_values d) of Inl e \<Rightarrow> Inl e
                | Inr px \<Rightarrow> Inr \<lparr>input_ids = ids, attention_mask = am, pixel_values = px\<rparr>)))"

text \<open>\<^verbatim>\<open>logits.squeeze().flatten()\<close>: all the elements, in row-major order.\<close>

definition squeeze_flatten :: "real list list list \<Rightarrow> real list" where
  "squeeze_flatten logits = concat (concat logits)"

definition clip_scores :: "('k, 'f) models \<Rightarrow> nat \<Rightarrow> string \<Rightarrow> image list \<Rightarrow> error + real list" where
  "clip_scores m W prompt imgs =
     (case clip_inputs m W prompt imgs of
        Inl e \<Rightarrow> Inl e
      | Inr inputs \<Rightarrow>
          (case shard_clip W inputs of
             Inl e \<Rightarrow> Inl e
           | Inr sharded \<Rightarrow>
               (case p_clip m sharded of
                  Inl e \<Rightarrow> Inl e
                | Inr logits \<Rightarrow> Inr (squeeze_flatten logits))))"

subsection \<open>Ranking\<close>

text \<open>\<^verbatim>\<open>ndarray.argsort()\<close>: the indices that sort the array in ascending order
  (a stable sort of the indices by their value).\<close>

definition argsort :: "real list \<Rightarrow> nat list" where
  "argsort logits = sort_key (\<lambda>i. logits ! i) [0..<length logits]"

text \<open>\<^verbatim>\<open>logits.argsort()[::-1]\<close>\<close>

definition ranked_indices :: "real list \<Rightarrow> nat list" where
  "ranked_indices logits = rev (argsort logits)"

text \<open>The display loop: each image with its score, in ranked order (the notebook prints
  the score to two decimals; the pair holds the score itself). An index out of range
  raises.\<close>

fun display_ranked :: "image list \<Rightarrow> real list \<Rightarrow> nat list \<Rightarrow> error + (image \<times> real) list" where
  "display_ranked imgs logits [] = Inr []"
| "display_ranked imgs logits (idx # rest) =
     (if idx < length imgs \<and> idx < length logits
      then (case display_ranked imgs logits rest of
              Inl e \<Rightarrow> Inl e
            | Inr shown \<Rightarrow> Inr ((imgs ! idx, logits ! idx) # shown))
      else Inl IndexError)"

subsection \<open>The notebook, top to bottom\<close>

text \<open>The cells in their order. What the notebook fixes in a cell of its own is an
  argument here: the number of devices \<open>W\<close>, the seed (drawn at random between 0 and
  \<open>2\<^sup>3\<^sup>2 - 1\<close>), the prompt and \<open>n_predictions\<close>.\<close>

record 'k run =
  generated :: "'k gen_state"
  logits :: "real list"
  displayed :: "(image \<times> real) list"

definition notebook :: "('k, 'f) models \<Rightarrow> nat \<Rightarrow> nat \<Rightarrow> string \<Rightarrow> nat \<Rightarrow> error + 'k run" where
  "notebook m W seed prompt n_predictions =
     (case shard_tokens W (tokenized_prompt m W prompt) of
        Inl e \<Rightarrow> Inl e
      | Inr tok \<Rightarrow>
          (case generate_images m W tok (PRNGKey m seed) n_predictions of
             Inl e \<Rightarrow> Inl e
           | Inr s \<Rightarrow>
               (case clip_scores m W prompt (images s) of
                  Inl e \<Rightarrow> Inl e
                | Inr scores \<Rightarrow>
                    (case display_ranked (images s) scores (ranked_indices scores) of
                       Inl e \<Rightarrow> Inl e
                     | Inr shown \<Rightarrow>
                         Inr \<lparr>generated = s, logits = scores, displayed = shown\<rparr>))))"

subsection \<open>Notions used in the statements\<close>

text \<open>The key the loop carries into turn \<open>i\<close>, when it starts from \<open>k\<close> and every split
  returns its two keys: each turn keeps the first half of the split and draws its sub-key
  from the second.\<close>

fun carried_key :: "('k, 'f) models \<Rightarrow> 'k \<Rightarrow> nat \<Rightarrow> 'k" where
  "carried_key m k 0 = k"
| "carried_key m k (Suc i) = carried_key m (random_split m k 2 ! 0) i"

text \<open>What one turn of the loop records, when it starts with the key \<open>k\<close> on \<open>W\<close> devices
  with one prompt each.\<close>

definition iteration_ok :: "('k, 'f) models \<Rightarrow> nat \<Rightarrow> 'k \<Rightarrow> 'k iteration \<Rightarrow> bool" where
  "iteration_ok m W k it \<longleftrightarrow>
     subkey it = random_split m k 2 ! 1
     \<and> device_keys it = shard_prng_key m W (subkey it)
     \<and> length (encoded_images it) = W
     \<and> list_all (\<lambda>b. length b = 1) (encoded_images it)"

text \<open>The score of each image against the 77-token encoding of the prompt.\<close>

definition prompt_scores :: "('k, 'f) models \<Rightarrow> string \<Rightarrow> image list \<Rightarrow> real list" where
  "prompt_scores m prompt imgs =
     map (\<lambda>img. clip_logit m (encode_ids (processor_tokenizer m) 77 prompt,
                              encode_mask (processor_tokenizer m) 77 prompt)
                   (feature_extractor m img)) imgs"



subsection \<open>A splittable generator\<close>

text \<open>Modelled from the spec: the "counter-based or splittable random number generator
  abstraction" of the design notes, in place of \<^verbatim>\<open>jax.random\<close>, which is not part
  of the sources. A key is its derivation from the seed: \<open>Split k num i\<close> is row \<open>i\<close> of
  \<^verbatim>\<open>jax.random.split(k, num)\<close>.\<close>

datatype derivation = Seed nat | Split derivation nat nat

definition split_derivation :: "derivation \<Rightarrow> nat \<Rightarrow> derivation list" where
  "split_derivation k num = map (Split k num) [0..<num]"

definition splittable :: "(derivation, 'f) models \<Rightarrow> bool" where
  "splittable m \<longleftrightarrow> PRNGKey m = Seed \<and> random_split m = split_derivation"

subsection \<open>Example models\<close>

text \<open>A tokenizer with one token per character. In \<open>token_models t\<close> the generator returns,
  for every row of its batch, the start token 0 and the token \<open>t k\<close> read off its key
  \<open>k\<close>; the decoder paints the image with that token (as a grey level out of 255); the
  scorer reads the first pixel; the random number generator is the splittable one. In
  \<open>example_models\<close> every key gives token 7, so every sample is the same image; in
  \<open>varied_models\<close> different keys give different tokens.\<close>

definition char_tokenizer :: tokenizer_config where
  "char_tokenizer =
     \<lparr>tokenize = map (\<lambda>c. int (of_char c)),
      bos_token_id = 0, eos_token_id = 2, pad_token_id = 1\<rparr>"

definition token_models :: "(derivation \<Rightarrow> int) \<Rightarrow> (derivation, nat) models" where
  "token_models t =
     \<lparr>normalize_text = True,
      text_normalizer = map (\<lambda>c. if c = CHR ''T'' then CHR ''t'' else c),
      tokenizer = char_tokenizer,
      generate = (\<lambda>tok k top_k top_p. map (\<lambda>row. [0, t k]) (input_ids tok)),
      decode_code = (\<lambda>b. replicate (length b * (256 * 256 * 3)) (real_of_int (hd (hd b)) / 255)),
      processor_tokenizer = char_tokenizer,
      feature_extractor = hd,
      clip_logit = (\<lambda>txt f. real f),
      PRNGKey = Seed,
      random_split = split_derivation\<rparr>"

definition example_models :: "(derivation, nat) models" where
  "example_models = token_models (\<lambda>k. 7)"

fun key_token :: "derivation \<Rightarrow> int" where
  "key_token (Seed n) = int n"
| "key_token (Split k num i) = 10 * key_token k + int i + 1"

definition varied_models :: "(derivation, nat) models" where
  "varied_models = token_models key_token"

section \<open>Reshaping keeps the elements and their order\<close>

lemma length_split_rows: "length (split_rows r c xs) = r"
  by (simp add: split_rows_def)

lemma nth_split_rows: "i < r \<Longrightarrow> split_rows r c xs ! i = take c (drop (i * c) xs)"
  by (simp add: split_rows_def)

lemma concat_split_rows: "concat (split_rows r c xs) = take (r * c) xs"
proof (induction r)
  case 0
  then show ?case by (simp add: split_rows_def)
next
  case (Suc r)
  have "concat (split_rows (Suc r) c xs) = concat (split_rows r c xs) @ take c (drop (r * c) xs)"
    by (simp add: split_rows_def)
  also have "\<dots> = take (r * c) xs @ take c (drop (r * c) xs)"
    by (simp add: Suc.IH)
  also have "\<dots> = take (r * c + c) xs"
    by (simp add: take_add)
  finally show ?case by (simp add: add.commute)
qed

lemma concat_split_rows_exact: "length xs = r * c \<Longrightarrow> concat (split_rows r c xs) = xs"
  by (simp add: concat_split_rows)

lemma length_row_split_rows:
  assumes "r * c \<le> length xs" "row \<in> set (split_rows r c xs)"
  shows "length row = c"
proof -
  from assms(2) obtain i where i: "i < r" and row: "row = take c (drop (i * c) xs)"
    by (auto simp: split_rows_def)
  from i have "i * c + c \<le> r * c"
    by (metis Suc_leI mult_Suc mult_le_mono1 add.commute)
  with assms(1) have "i * c + c \<le> length xs" by simp
  with row show ?thesis by simp
qed

lemma split_rows_singletons: "split_rows (length xs) 1 xs = map (\<lambda>x. [x]) xs"
proof (rule nth_equalityI)
  show "length (split_rows (length xs) 1 xs) = length (map (\<lambda>x. [x]) xs)"
    by (simp add: length_split_rows)
next
  fix i assume "i < length (split_rows (length xs) 1 xs)"
  then have i: "i < length xs" by (simp add: length_split_rows)
  then have "take 1 (drop i xs) = [xs ! i]"
    by (simp add: take_Suc_conv_app_nth)
  with i show "split_rows (length xs) 1 xs ! i = map (\<lambda>x. [x]) xs ! i"
    by (simp add: nth_split_rows)
qed

lemma set_split_rows: "row \<in> set (split_rows r c xs) \<Longrightarrow> set row \<subseteq> set xs"
  by (auto simp: split_rows_def dest!: in_set_takeD in_set_dropD)

lemma length_concat_uniform:
  "(\<And>xs. xs \<in> set xss \<Longrightarrow> length xs = c) \<Longrightarrow> length (concat xss) = length xss * c"
  by (induction xss) auto

lemma shard_dvd: "0 < W \<Longrightarrow> W dvd length x \<Longrightarrow> shard W x = Inr (split_rows W (length x div W) x)"
  by (auto simp: shard_def)

lemma shard_replicate: "0 < W \<Longrightarrow> shard W (replicate W x) = Inr (replicate W [x])"
  using split_rows_singletons [of "replicate W x"] by (simp add: shard_def)

lemma split_pair:
  assumes "well_shaped m"
  shows "random_split m k 2 = [random_split m k 2 ! 0, random_split m k 2 ! 1]"
proof -
  from assms have "length (random_split m k 2) = 2"
    by (simp add: well_shaped_def)
  then obtain a b where "random_split m k 2 = [a, b]"
    by (auto simp: numeral_2_eq_2 length_Suc_conv)
  then show ?thesis
    by simp
qed

section \<open>Ranking\<close>

lemma mset_ranked_indices: "mset (ranked_indices scores) = mset [0..<length scores]"
  by (simp add: ranked_indices_def argsort_def)

lemma sorted_ranked_indices:
  "sorted_wrt (\<lambda>a b. b \<le> a) (map (\<lambda>i. scores ! i) (ranked_indices scores))"
proof -
  have "sorted (map (\<lambda>i. scores ! i) (argsort scores))"
    unfolding argsort_def by (rule sorted_sort_key)
  then show ?thesis
    by (simp add: ranked_indices_def rev_map [symmetric] sorted_wrt_rev)
qed

lemma set_ranked_indices: "set (ranked_indices scores) = {0..<length scores}"
  by (simp add: ranked_indices_def argsort_def)





lemma display_ranked_in_range:
  assumes "\<forall>i \<in> set order. i < length imgs \<and> i < length scores"
  shows "display_ranked imgs scores order = Inr (map (\<lambda>i. (imgs ! i, scores ! i)) order)"
  using assms by (induction order) auto

text \<open>Claim C1. The order in which the images are shown, \<^verbatim>\<open>logits.argsort()[::-1]\<close>,
  is a permutation of the indices of the scores, and the scores do not increase along it;
  for the scores 0.71, 0.95, 0.33 it is 1, 0, 2.\<close>

theorem ranking_descending:
  "mset (ranked_indices scores) = mset [0..<length scores]
   \<and> sorted_wrt (\<lambda>a b. b \<le> a) (map (\<lambda>i. scores ! i) (ranked_indices scores))
   \<and> ranked_indices [0.71, 0.95, 0.33] = [1, 0, 2]"
proof -
  have "ranked_indices [0.71, 0.95, 0.33] = [1, 0, 2]"
    by (simp add: ranked_indices_def argsort_def upt_rec)
  with mset_ranked_indices sorted_ranked_indices show ?thesis
    by blast
qed

section \<open>Decoding\<close>

lemma clip_unit: "clip 0 1 x = (if x < 0 then 0 else if 1 < x then 1 else x)"
  by (simp add: clip_def min_def max_def)

lemma clip_unit_range: "0 \<le> clip 0 1 x \<and> clip 0 1 x \<le> 1"
  by (simp add: clip_def min_def max_def)

text \<open>Claim C3. Whatever values the decoder returns, as long as they make whole images
  (the reshape to \<open>(-1, 256, 256, 3)\<close> raises otherwise), the decoded images are the
  decoder's values clipped, in their order, cut into images of \<open>256 \<times> 256 \<times> 3\<close> values;
  every value lies within 0 and 1, a value below 0 having become 0 and a value above 1
  having become 1.\<close>

theorem decoding_output_clipped:
  assumes "256 * 256 * 3 dvd length (concat raw)"
  shows "(\<exists>imgs. clip_reshape raw = Inr imgs
            \<and> concat imgs = map (clip 0 1) (concat raw)
            \<and> length imgs = length (concat raw) div (256 * 256 * 3)
            \<and> list_all (\<lambda>img. length img = 256 * 256 * 3
                               \<and> list_all (\<lambda>x. 0 \<le> x \<and> x \<le> 1) img) imgs)
         \<and> clip 0 1 x = (if x < 0 then 0 else if 1 < x then 1 else x)"
proof -
  define flat where "flat = concat (map (map (clip 0 1)) raw)"
  define n where "n = length flat div (256 * 256 * 3)"
  define imgs where "imgs = split_rows n (256 * 256 * 3) flat"
  have flat: "flat = map (clip 0 1) (concat raw)"
    by (simp add: flat_def map_concat)
  with assms have dvd: "256 * 256 * 3 dvd length flat"
    by simp
  then have len: "length flat = n * (256 * 256 * 3)"
    by (simp add: n_def)
  from dvd have res: "clip_reshape raw = Inr imgs"
    by (simp add: clip_reshape_def imgs_def n_def flat_def Let_def mod_eq_0_iff_dvd)
  have cat: "concat imgs = flat"
    unfolding imgs_def using len by (rule concat_split_rows_exact)
  have rows: "length img = 256 * 256 * 3" if "img \<in> set imgs" for img
    using that len length_row_split_rows [of n "256 * 256 * 3" flat img]
    by (simp add: imgs_def)
  have vals: "0 \<le> v \<and> v \<le> 1" if "img \<in> set imgs" "v \<in> set img" for img v
  proof -
    from that have "v \<in> set flat"
      using set_split_rows [of img n "256 * 256 * 3" flat] by (auto simp: imgs_def)
    then show ?thesis
      by (auto simp: flat clip_unit_range)
  qed
  have "list_all (\<lambda>img. length img = 256 * 256 * 3
                               \<and> list_all (\<lambda>x. 0 \<le> x \<and> x \<le> 1) img) imgs"
    using rows vals by (simp add: list_all_iff)
  moreover have "length imgs = length (concat raw) div (256 * 256 * 3)"
    by (simp add: imgs_def length_split_rows n_def flat)
  ultimately show ?thesis
    using res cat flat clip_unit by blast
qed

theorem decoding_output_clipped_witness:
  "256 * 256 * 3 dvd length (concat [replicate 98304 (- 1 / 2) @ replicate 98304 (3 / 2 :: real)])
   \<and> (\<exists>imgs. clip_reshape [replicate 98304 (- 1 / 2) @ replicate 98304 (3 / 2)] = Inr imgs
          \<and> concat imgs = replicate 98304 0 @ replicate 98304 1
          \<and> length imgs = 1
          \<and> list_all (\<lambda>img. length img = 256 * 256 * 3
                               \<and> list_all (\<lambda>x. 0 \<le> x \<and> x \<le> 1) img) imgs)
   \<and> clip 0 1 (- 1 / 2) = 0 \<and> clip 0 1 (3 / 2) = 1"
  using decoding_output_clipped [of "[replicate 98304 (- 1 / 2) @ replicate 98304 (3 / 2)]" "- 1 / 2"]
    decoding_output_clipped [of "[replicate 98304 (- 1 / 2) @ replicate 98304 (3 / 2)]" "3 / 2"]
  by (simp add: clip_unit)

section \<open>Sharding\<close>

text \<open>Claim C5. For an array whose leading dimension is a multiple of the number of
  workers (equal to it, in the claim), \<open>shard\<close> succeeds, \<open>unshard\<close> gives the array back,
  there is one shard per worker, shard \<open>i\<close> is the \<open>i\<close>-th slice of the batch in the order
  of the batch, and when the leading dimension is the number of workers shard \<open>i\<close> holds
  exactly row \<open>i\<close>.\<close>

theorem shard_round_trip:
  assumes "0 < W" and "W dvd length X"
  shows "\<exists>S. shard W X = Inr S
           \<and> unshard S = X
           \<and> length S = W
           \<and> (\<forall>i < W. S ! i = take (length X div W) (drop (i * (length X div W)) X))
           \<and> (length X = W \<longrightarrow> S = map (\<lambda>x. [x]) X)"
proof -
  define S where "S = split_rows W (length X div W) X"
  from assms have "shard W X = Inr S"
    by (simp add: shard_dvd S_def)
  moreover from assms have "unshard S = X"
    by (simp add: unshard_def S_def concat_split_rows_exact)
  moreover have "length S = W"
    by (simp add: S_def length_split_rows)
  moreover have "\<forall>i < W. S ! i = take (length X div W) (drop (i * (length X div W)) X)"
    by (simp add: S_def nth_split_rows)
  moreover have "length X = W \<longrightarrow> S = map (\<lambda>x. [x]) X"
    using assms(1) split_rows_singletons [of X] by (auto simp: S_def)
  ultimately show ?thesis
    by blast
qed

theorem shard_round_trip_witness:
  "(0 :: nat) < 4 \<and> 4 dvd length [10, 11, 12, 13 :: int]
   \<and> shard 4 [10, 11, 12, 13 :: int] = Inr [[10], [11], [12], [13]]
   \<and> unshard [[10], [11], [12], [13 :: int]] = [10, 11, 12, 13]"
proof -
  have h1: "(0 :: nat) < 4"
    by simp
  have h2: "4 dvd length [10, 11, 12, 13 :: int]"
    by (simp add: eval_nat_numeral)
  from shard_round_trip [OF h1 h2] obtain S
    where S: "shard 4 [10, 11, 12, 13 :: int] = Inr S" "unshard S = [10, 11, 12, 13]"
      "length [10, 11, 12, 13 :: int] = 4 \<longrightarrow> S = map (\<lambda>x. [x]) [10, 11, 12, 13]"
    by blast
  from S(3) have "S = [[10], [11], [12], [13]]"
    by simp
  with S(1,2) h1 h2 show ?thesis
    by simp
qed

section \<open>Tokenizing the prompt\<close>

lemma length_with_special_tokens: "length (with_special_tokens tk ids) = length ids + 2"
  by (simp add: with_special_tokens_def)

lemma length_encode_ids: "2 \<le> L \<Longrightarrow> length (encode_ids tk L text) = L"
  by (simp add: encode_ids_def Let_def length_with_special_tokens min_def)

lemma length_encode_mask: "2 \<le> L \<Longrightarrow> length (encode_mask tk L text) = L"
  by (simp add: encode_mask_def Let_def length_with_special_tokens min_def)

lemma encode_truncated:
  assumes "2 \<le> L" and "L < length (with_special_tokens tk (tokenize tk text))"
  shows "encode_ids tk L text = with_special_tokens tk (take (L - 2) (tokenize tk text))"
    and "encode_mask tk L text = replicate L 1"
proof -
  from assms have "length (with_special_tokens tk (take (L - 2) (tokenize tk text))) = L"
    by (simp add: length_with_special_tokens)
  then show "encode_ids tk L text = with_special_tokens tk (take (L - 2) (tokenize tk text))"
    and "encode_mask tk L text = replicate L 1"
    by (simp_all add: encode_ids_def encode_mask_def Let_def)
qed

lemma encode_padded:
  assumes "length (with_special_tokens tk (tokenize tk text)) \<le> L"
  shows "encode_ids tk L text =
           with_special_tokens tk (tokenize tk text)
             @ replicate (L - length (with_special_tokens tk (tokenize tk text))) (pad_token_id tk)"
    and "encode_mask tk L text =
           replicate (length (with_special_tokens tk (tokenize tk text))) 1
             @ replicate (L - length (with_special_tokens tk (tokenize tk text))) 0"
proof -
  from assms have "take (L - 2) (tokenize tk text) = tokenize tk text"
    by (simp add: length_with_special_tokens)
  then show "encode_ids tk L text =
           with_special_tokens tk (tokenize tk text)
             @ replicate (L - length (with_special_tokens tk (tokenize tk text))) (pad_token_id tk)"
    and "encode_mask tk L text =
           replicate (length (with_special_tokens tk (tokenize tk text))) 1
             @ replicate (L - length (with_special_tokens tk (tokenize tk text))) 0"
    by (simp_all add: encode_ids_def encode_mask_def Let_def)
qed

lemma tokenizer_call_replicate:
  "tokenizer_call tk (replicate N text) L =
     \<lparr>input_ids = replicate N (encode_ids tk L text),
      attention_mask = replicate N (encode_mask tk L text)\<rparr>"
  by (simp add: tokenizer_call_def)

lemma shard_tokens_prompt:
  assumes "0 < W"
  shows "shard_tokens W (tokenized_prompt m W prompt) =
           Inr \<lparr>input_ids = replicate W [encode_ids (tokenizer m) 128 (processed_prompt m prompt)],
                attention_mask = replicate W [encode_mask (tokenizer m) 128 (processed_prompt m prompt)]\<rparr>"
  using assms
  by (simp add: shard_tokens_def tokenized_prompt_def tokenizer_call_replicate shard_replicate)

lemma tokenize_example_prompt:
  "tokenize char_tokenizer ''a red t-shirt''
     = [97, 32, 114, 101, 100, 32, 116, 45, 115, 104, 105, 114, 116]"
  by (simp add: char_tokenizer_def)

lemma tokenize_example_long:
  "tokenize char_tokenizer (replicate 100 CHR ''a'') = replicate 100 97"
  by (simp add: char_tokenizer_def)

lemma processed_example_prompt:
  "processed_prompt example_models ''a red T-shirt'' = ''a red t-shirt''"
  by (simp add: processed_prompt_def example_models_def token_models_def)

text \<open>Claim C6. The tokenized prompt is one and the same row of 128 token ids, and one
  and the same row of 128 mask entries, for every replica and in every call (whatever
  the number of replicas); a tokenization of more than 128 tokens, special tokens
  included, is cut to 128 and one of fewer is filled with the padding token (mask 0).\<close>

theorem tokenizer_adapter_fixed_length:
  "tokenized_prompt m W prompt =
      \<lparr>input_ids = replicate W (encode_ids (tokenizer m) 128 (processed_prompt m prompt)),
       attention_mask = replicate W (encode_mask (tokenizer m) 128 (processed_prompt m prompt))\<rparr>
   \<and> length (encode_ids (tokenizer m) 128 (processed_prompt m prompt)) = 128
   \<and> length (encode_mask (tokenizer m) 128 (processed_prompt m prompt)) = 128
   \<and> (128 < length (with_special_tokens (tokenizer m) (tokenize (tokenizer m) (processed_prompt m prompt)))
        \<longrightarrow> encode_ids (tokenizer m) 128 (processed_prompt m prompt) =
              with_special_tokens (tokenizer m) (take 126 (tokenize (tokenizer m) (processed_prompt m prompt)))
          \<and> encode_mask (tokenizer m) 128 (processed_prompt m prompt) = replicate 128 1)
   \<and> (length (with_special_tokens (tokenizer m) (tokenize (tokenizer m) (processed_prompt m prompt))) \<le> 128
        \<longrightarrow> encode_ids (tokenizer m) 128 (processed_prompt m prompt) =
              with_special_tokens (tokenizer m) (tokenize (tokenizer m) (processed_prompt m prompt))
                @ replicate (128 - length (with_special_tokens (tokenizer m)
                                (tokenize (tokenizer m) (processed_prompt m prompt))))
                    (pad_token_id (tokenizer m))
          \<and> encode_mask (tokenizer m) 128 (processed_prompt m prompt) =
              replicate (length (with_special_tokens (tokenizer m)
                                (tokenize (tokenizer m) (processed_prompt m prompt)))) 1
                @ replicate (128 - length (with_special_tokens (tokenizer m)
                                (tokenize (tokenizer m) (processed_prompt m prompt)))) 0)
   \<and> (\<forall>W' i j. i < W \<longrightarrow> j < W' \<longrightarrow>
          input_ids (tokenized_prompt m W prompt) ! i = input_ids (tokenized_prompt m W' prompt) ! j
          \<and> attention_mask (tokenized_prompt m W prompt) ! i
              = attention_mask (tokenized_prompt m W' prompt) ! j)"
  using encode_truncated [of 128 "tokenizer m" "processed_prompt m prompt"]
    encode_padded [of "tokenizer m" "processed_prompt m prompt" 128]
  by (simp add: tokenized_prompt_def tokenizer_call_replicate length_encode_ids length_encode_mask)

theorem tokenizer_adapter_fixed_length_witness:
  "length (with_special_tokens (tokenizer example_models)
             (tokenize (tokenizer example_models) (processed_prompt example_models ''a red T-shirt'')))
     \<le> 128
   \<and> tokenized_prompt example_models 2 ''a red T-shirt''
       = \<lparr>input_ids = replicate 2
              ([0, 97, 32, 114, 101, 100, 32, 116, 45, 115, 104, 105, 114, 116, 2] @ replicate 113 1),
           attention_mask = replicate 2 (replicate 15 1 @ replicate 113 0)\<rparr>
   \<and> 128 < length (with_special_tokens (tokenizer example_models)
                   (tokenize (tokenizer example_models)
                      (processed_prompt example_models (replicate 200 CHR ''a''))))
   \<and> tokenized_prompt example_models 2 (replicate 200 CHR ''a'')
       = \<lparr>input_ids = replicate 2 (0 # replicate 126 97 @ [2]),
           attention_mask = replicate 2 (replicate 128 1)\<rparr>
   \<and> (1 :: nat) < 2 \<and> (2 :: nat) < 3
   \<and> input_ids (tokenized_prompt example_models 2 ''a red T-shirt'') ! 1
       = input_ids (tokenized_prompt example_models 3 ''a red T-shirt'') ! 2"
proof -
  have tk: "tokenizer example_models = char_tokenizer"
    by (simp add: example_models_def token_models_def)
  have long_prompt: "processed_prompt example_models (replicate 200 CHR ''a'') = replicate 200 CHR ''a''"
    by (simp add: processed_prompt_def example_models_def token_models_def)
  have long_tokens: "tokenize char_tokenizer (replicate 200 CHR ''a'') = replicate 200 97"
    by (simp add: char_tokenizer_def)
  have short: "length (with_special_tokens (tokenizer example_models)
             (tokenize (tokenizer example_models) (processed_prompt example_models ''a red T-shirt'')))
     \<le> 128"
    by (simp add: tk processed_example_prompt tokenize_example_prompt length_with_special_tokens)
  have long: "128 < length (with_special_tokens (tokenizer example_models)
                   (tokenize (tokenizer example_models)
                      (processed_prompt example_models (replicate 200 CHR ''a''))))"
    by (simp add: tk long_prompt long_tokens length_with_special_tokens)
  let ?p = "processed_prompt example_models ''a red T-shirt''"
  let ?q = "processed_prompt example_models (replicate 200 CHR ''a'')"
  let ?full = "\<lambda>t. with_special_tokens (tokenizer example_models) (tokenize (tokenizer example_models) t)"
  note short_run = tokenizer_adapter_fixed_length [of example_models 2 "''a red T-shirt''"]
  from short_run have a1: "tokenized_prompt example_models 2 ''a red T-shirt''
      = \<lparr>input_ids = replicate 2 (encode_ids (tokenizer example_models) 128 ?p),
          attention_mask = replicate 2 (encode_mask (tokenizer example_models) 128 ?p)\<rparr>"
    by blast
  from short_run short have a2: "encode_ids (tokenizer example_models) 128 ?p
      = ?full ?p @ replicate (128 - length (?full ?p)) (pad_token_id (tokenizer example_models))"
    by blast
  from short_run short have a3: "encode_mask (tokenizer example_models) 128 ?p
      = replicate (length (?full ?p)) 1 @ replicate (128 - length (?full ?p)) 0"
    by blast
  have a4: "?full ?p = [0, 97, 32, 114, 101, 100, 32, 116, 45, 115, 104, 105, 114, 116, 2]"
    by (simp add: tk processed_example_prompt tokenize_example_prompt with_special_tokens_def)
      (simp add: char_tokenizer_def)
  have a5: "length [0, 97, 32, 114, 101, 100, 32, 116, 45, 115, 104, 105, 114, 116, 2 :: int] = 15"
    by simp
  have a: "tokenized_prompt example_models 2 ''a red T-shirt''
       = \<lparr>input_ids = replicate 2
              ([0, 97, 32, 114, 101, 100, 32, 116, 45, 115, 104, 105, 114, 116, 2] @ replicate 113 1),
           attention_mask = replicate 2 (replicate 15 1 @ replicate 113 0)\<rparr>"
    unfolding a1 a2 a3 a4 a5 by (simp add: tk char_tokenizer_def)
  note long_run = tokenizer_adapter_fixed_length [of example_models 2 "replicate 200 CHR ''a''"]
  from long_run have b1: "tokenized_prompt example_models 2 (replicate 200 CHR ''a'')
      = \<lparr>input_ids = replicate 2 (encode_ids (tokenizer example_models) 128 ?q),
          attention_mask = replicate 2 (encode_mask (tokenizer example_models) 128 ?q)\<rparr>"
    by blast
  from long_run long have b2: "encode_ids (tokenizer example_models) 128 ?q
      = with_special_tokens (tokenizer example_models)
          (take 126 (tokenize (tokenizer example_models) ?q))"
    by blast
  from long_run long have b3: "encode_mask (tokenizer example_models) 128 ?q = replicate 128 1"
    by blast
  have b4: "with_special_tokens (tokenizer example_models)
          (take 126 (tokenize (tokenizer example_models) ?q)) = 0 # replicate 126 97 @ [2]"
    by (simp add: tk long_prompt long_tokens with_special_tokens_def)
      (simp add: char_tokenizer_def)
  have b: "tokenized_prompt example_models 2 (replicate 200 CHR ''a'')
       = \<lparr>input_ids = replicate 2 (0 # replicate 126 97 @ [2]),
           attention_mask = replicate 2 (replicate 128 1)\<rparr>"
    unfolding b1 b2 b3 b4 by simp
  have c1: "(1 :: nat) < 2" and c2: "(2 :: nat) < 3"
    by simp_all
  from short_run c1 c2
  have c: "input_ids (tokenized_prompt example_models 2 ''a red T-shirt'') ! 1
       = input_ids (tokenized_prompt example_models 3 ''a red T-shirt'') ! 2"
    by blast
  from short a long b c c1 c2 show ?thesis
    by blast
qed

section \<open>The generation loop\<close>

lemma well_shaped_token: "well_shaped (token_models t)"
  by (simp add: well_shaped_def token_models_def split_derivation_def)

lemma well_shaped_example: "well_shaped example_models"
  by (simp add: example_models_def well_shaped_token)

lemma well_shaped_varied: "well_shaped varied_models"
  by (simp add: varied_models_def well_shaped_token)

lemma clip_reshape_whole:
  assumes "length (concat raw) = n * (256 * 256 * 3)"
  shows "clip_reshape raw = Inr (split_rows n (256 * 256 * 3) (map (clip 0 1) (concat raw)))"
proof -
  have "concat (map (map (clip 0 1)) raw) = map (clip 0 1) (concat raw)"
    by (simp add: map_concat)
  with assms show ?thesis
    by (simp add: clip_reshape_def Let_def)
qed

lemma length_shard_prng_key: "well_shaped m \<Longrightarrow> length (shard_prng_key m W k) = W"
  by (simp add: shard_prng_key_def well_shaped_def)

lemma p_generate_ok:
  assumes "length (input_ids tok) = length keys" "length (attention_mask tok) = length keys"
  shows "p_generate m tok keys top_k top_p =
           Inr (map (\<lambda>d. generate m \<lparr>input_ids = input_ids tok ! d,
                                     attention_mask = attention_mask tok ! d\<rparr>
                          (keys ! d) top_k top_p) [0..<length keys])"
  using assms by (simp add: p_generate_def)

lemma generation_step_ok:
  assumes ws: "well_shaped m"
    and tok: "length (input_ids tok) = W" "length (attention_mask tok) = W"
      "\<forall>d < W. length (input_ids tok ! d) = 1"
  shows "\<exists>imgs enc. generation_step m W tok s =
            Inr \<lparr>key = random_split m (key s) 2 ! 0,
                 images = images s @ imgs,
                 iterations = iterations s @
                   [\<lparr>subkey = random_split m (key s) 2 ! 1,
                     device_keys = shard_prng_key m W (random_split m (key s) 2 ! 1),
                     encoded_images = enc\<rparr>]\<rparr>
          \<and> length imgs = W \<and> length enc = W \<and> list_all (\<lambda>b. length b = 1) enc"
proof -
  define k' where "k' = random_split m (key s) 2 ! 0"
  define sub where "sub = random_split m (key s) 2 ! 1"
  have pair: "random_split m (key s) 2 = [k', sub]"
    unfolding k'_def sub_def using ws by (rule split_pair)
  define gen where "gen = map (\<lambda>d. generate m \<lparr>input_ids = input_ids tok ! d,
                                     attention_mask = attention_mask tok ! d\<rparr>
                          (shard_prng_key m W sub ! d) gen_top_k gen_top_p) [0..<W]"
  define enc where "enc = remove_bos gen"
  define decoded where "decoded = split_rows W (256 * 256 * 3) (map (clip 0 1) (concat (p_decode m enc)))"
  have pg: "p_generate m tok (shard_prng_key m W sub) gen_top_k gen_top_p = Inr gen"
    using tok(1,2) p_generate_ok [of tok "shard_prng_key m W sub" m gen_top_k gen_top_p]
    by (simp add: length_shard_prng_key [OF ws] gen_def)
  have len_enc: "length enc = W"
    by (simp add: enc_def remove_bos_def gen_def)
  have batch: "length b = 1" if "b \<in> set enc" for b
  proof -
    from that obtain d where d: "d < W" and b: "b = map (drop 1) (gen ! d)"
      by (auto simp: enc_def remove_bos_def gen_def)
    from d ws tok(3) have "length (gen ! d) = 1"
      by (simp add: gen_def well_shaped_def)
    with b show ?thesis by simp
  qed
  have "length raw = 256 * 256 * 3" if "raw \<in> set (p_decode m enc)" for raw
  proof -
    from that obtain b where "b \<in> set enc" "raw = decode_code m b"
      by (auto simp: p_decode_def)
    with batch ws show ?thesis
      by (simp add: well_shaped_def)
  qed
  then have "length (concat (p_decode m enc)) = length (p_decode m enc) * (256 * 256 * 3)"
    by (rule length_concat_uniform)
  then have "length (concat (p_decode m enc)) = W * (256 * 256 * 3)"
    by (simp add: p_decode_def len_enc)
  then have cr: "clip_reshape (p_decode m enc) = Inr decoded"
    unfolding decoded_def by (rule clip_reshape_whole)
  have "generation_step m W tok s =
            Inr \<lparr>key = k',
                 images = images s @ map to_image decoded,
                 iterations = iterations s @
                   [\<lparr>subkey = sub,
                     device_keys = shard_prng_key m W sub,
                     encoded_images = enc\<rparr>]\<rparr>"
    using pg cr
    by (simp add: generation_step_def pair enc_def [symmetric] Let_def)
  moreover have "length (map to_image decoded) = W"
    by (simp add: decoded_def length_split_rows)
  moreover have "list_all (\<lambda>b. length b = 1) enc"
    using batch by (simp add: list_all_iff)
  ultimately show ?thesis
    using len_enc unfolding k'_def sub_def by blast
qed

lemma generation_loop_ok:
  assumes ws: "well_shaped m"
    and tok: "length (input_ids tok) = W" "length (attention_mask tok) = W"
      "\<forall>d < W. length (input_ids tok ! d) = 1"
  shows "\<exists>s' new. generation_loop m W tok n s = Inr s'
           \<and> key s' = carried_key m (key s) n
           \<and> length (images s') = length (images s) + n * W
           \<and> iterations s' = iterations s @ new
           \<and> length new = n
           \<and> (\<forall>i < n. iteration_ok m W (carried_key m (key s) i) (new ! i))"
proof (induction n arbitrary: s)
  case 0
  show ?case
    by simp
next
  case (Suc n)
  define it0 where "it0 enc = \<lparr>subkey = random_split m (key s) 2 ! 1,
                     device_keys = shard_prng_key m W (random_split m (key s) 2 ! 1),
                     encoded_images = enc\<rparr>" for enc
  from generation_step_ok [OF ws tok, of s] obtain imgs enc s1
    where step: "generation_step m W tok s = Inr s1"
      and s1: "s1 = \<lparr>key = random_split m (key s) 2 ! 0, images = images s @ imgs,
                 iterations = iterations s @ [it0 enc]\<rparr>"
      and shapes: "length imgs = W" "length enc = W" "list_all (\<lambda>b. length b = 1) enc"
    unfolding it0_def by blast
  have it0: "iteration_ok m W (key s) (it0 enc)"
    using shapes by (simp add: iteration_ok_def it0_def)
  from Suc.IH [of s1] obtain s' new
    where loop: "generation_loop m W tok n s1 = Inr s'"
      and k: "key s' = carried_key m (key s1) n"
      and im: "length (images s') = length (images s1) + n * W"
      and its: "iterations s' = iterations s1 @ new"
      and len: "length new = n"
      and ok: "\<forall>i < n. iteration_ok m W (carried_key m (key s1) i) (new ! i)"
    by blast
  have "generation_loop m W tok (Suc n) s = Inr s'"
    using step loop by simp
  moreover have "key s' = carried_key m (key s) (Suc n)"
    using k by (simp add: s1)
  moreover have "length (images s') = length (images s) + Suc n * W"
    using im shapes(1) by (simp add: s1)
  moreover have "iterations s' = iterations s @ (it0 enc # new)"
    using its by (simp add: s1)
  moreover have "length (it0 enc # new) = Suc n"
    using len by simp
  moreover have "\<forall>i < Suc n. iteration_ok m W (carried_key m (key s) i) ((it0 enc # new) ! i)"
  proof (intro allI impI)
    fix i assume i: "i < Suc n"
    show "iteration_ok m W (carried_key m (key s) i) ((it0 enc # new) ! i)"
    proof (cases i)
      case 0
      with it0 show ?thesis
        by simp
    next
      case (Suc j)
      with i ok have "iteration_ok m W (carried_key m (key s1) j) (new ! j)"
        by simp
      with Suc show ?thesis
        by (simp add: s1)
    qed
  qed
  ultimately show ?case
    by blast
qed

lemma generate_images_ok:
  assumes "0 < W" and ws: "well_shaped m"
    and tok: "length (input_ids tok) = W" "length (attention_mask tok) = W"
      "\<forall>d < W. length (input_ids tok ! d) = 1"
  shows "\<exists>s. generate_images m W tok k N = Inr s
           \<and> length (images s) = N div W * W
           \<and> length (iterations s) = N div W
           \<and> (\<forall>i < N div W. iteration_ok m W (carried_key m k i) (iterations s ! i))"
  using generation_loop_ok [OF ws tok, of "N div W" "\<lparr>key = k, images = [], iterations = []\<rparr>"]
    \<open>0 < W\<close>
  by (auto simp: generate_images_def)

lemma notebook_generation:
  assumes "0 < W" and "well_shaped m"
  shows "\<exists>tok s. shard_tokens W (tokenized_prompt m W prompt) = Inr tok
           \<and> generate_images m W tok (PRNGKey m seed) N = Inr s
           \<and> length (images s) = N div W * W
           \<and> length (iterations s) = N div W
           \<and> (\<forall>i < N div W. iteration_ok m W (carried_key m (PRNGKey m seed) i) (iterations s ! i))"
proof -
  let ?tok = "\<lparr>input_ids = replicate W [encode_ids (tokenizer m) 128 (processed_prompt m prompt)],
               attention_mask = replicate W [encode_mask (tokenizer m) 128 (processed_prompt m prompt)]\<rparr>"
  have "shard_tokens W (tokenized_prompt m W prompt) = Inr ?tok"
    using assms(1) by (rule shard_tokens_prompt)
  moreover have "\<exists>s. generate_images m W ?tok (PRNGKey m seed) N = Inr s
           \<and> length (images s) = N div W * W
           \<and> length (iterations s) = N div W
           \<and> (\<forall>i < N div W. iteration_ok m W (carried_key m (PRNGKey m seed) i) (iterations s ! i))"
    by (rule generate_images_ok [OF assms]) simp_all
  ultimately show ?thesis
    by blast
qed

lemma generation_step_decodes:
  assumes "generation_step m W tok s = Inr s'"
  shows "\<exists>key' sub generated decoded.
           random_split m (key s) 2 = [key', sub]
           \<and> p_generate m tok (shard_prng_key m W sub) gen_top_k gen_top_p = Inr generated
           \<and> clip_reshape (p_decode m (remove_bos generated)) = Inr decoded
           \<and> images s' = images s @ map to_image decoded"
  using assms
  by (auto simp: generation_step_def Let_def split: list.splits sum.splits)

text \<open>Claim C4. The slice \<^verbatim>\<open>[..., 1:]\<close> keeps the device and batch axes, shortens
  every generated sequence by one token, and turns a sequence that is a start token
  followed by \<open>toks\<close> into \<open>toks\<close>: the token at the first position is removed and
  nothing else. In a turn of the loop that succeeds, what the decoder is given, and what
  the images of that turn are made from, is the generator's output with that slice
  applied.\<close>

theorem remove_bos_strips_leading_token:
  "length (remove_bos seqs) = length seqs
   \<and> (\<forall>d < length seqs. length (remove_bos seqs ! d) = length (seqs ! d)
        \<and> (\<forall>j < length (seqs ! d).
              length (remove_bos seqs ! d ! j) = length (seqs ! d ! j) - 1
              \<and> (\<forall>start toks. seqs ! d ! j = start # toks \<longrightarrow> remove_bos seqs ! d ! j = toks)))
   \<and> (generation_step m W tok s = Inr s' \<longrightarrow>
        (\<exists>key' sub generated decoded.
           random_split m (key s) 2 = [key', sub]
           \<and> p_generate m tok (shard_prng_key m W sub) gen_top_k gen_top_p = Inr generated
           \<and> clip_reshape (p_decode m (remove_bos generated)) = Inr decoded
           \<and> images s' = images s @ map to_image decoded))"
  using generation_step_decodes [of m W tok s s'] by (simp add: remove_bos_def)

theorem remove_bos_strips_leading_token_witness:
  "length (remove_bos [[[0, 7, 8, 9]], [[0, 4, 5, 6]]]) = length [[[0, 7, 8, 9]], [[0 :: int, 4, 5, 6]]]
   \<and> remove_bos [[[0, 7, 8, 9]], [[0, 4, 5, 6]]] ! 1 ! 0 = [4, 5, 6]
   \<and> remove_bos [[[0, 7, 8, 9]], [[0, 4, 5, 6]]] ! 0 ! 0 = [7, 8, 9]
   \<and> (\<exists>s'. generation_step example_models 2
               \<lparr>input_ids = [[[0, 5, 2]], [[0, 5, 2]]], attention_mask = [[[1, 1, 1]], [[1, 1, 1]]]\<rparr>
               \<lparr>key = Seed 0, images = [], iterations = []\<rparr> = Inr s'
          \<and> (\<exists>generated decoded.
                p_generate example_models
                  \<lparr>input_ids = [[[0, 5, 2]], [[0, 5, 2]]], attention_mask = [[[1, 1, 1]], [[1, 1, 1]]]\<rparr>
                  (shard_prng_key example_models 2 (Split (Seed 0) 2 1)) gen_top_k gen_top_p
                  = Inr generated
                \<and> clip_reshape (p_decode example_models (remove_bos generated)) = Inr decoded
                \<and> images s' = map to_image decoded))"
proof -
  let ?tok = "\<lparr>input_ids = [[[0, 5, 2]], [[0, 5, 2 :: int]]],
               attention_mask = [[[1, 1, 1]], [[1, 1, 1 :: int]]]\<rparr>"
  let ?s = "\<lparr>key = Seed 0, images = [], iterations = []\<rparr>"
  have "\<forall>d < 2. length (input_ids ?tok ! d) = 1"
    by (simp add: less_Suc_eq numeral_2_eq_2)
  with generation_step_ok [OF well_shaped_example, of ?tok 2 ?s]
  obtain s' where step: "generation_step example_models 2 ?tok ?s = Inr s'"
    by auto
  from remove_bos_strips_leading_token [where seqs = "[[[0, 7, 8, 9]], [[0, 4, 5, 6]]]"
      and m = example_models and W = 2 and tok = ?tok and s = ?s and s' = s'] step
  obtain key' sub generated decoded
    where pair: "random_split example_models (key ?s) 2 = [key', sub]"
      and rest: "p_generate example_models ?tok (shard_prng_key example_models 2 sub)
                   gen_top_k gen_top_p = Inr generated"
        "clip_reshape (p_decode example_models (remove_bos generated)) = Inr decoded"
        "images s' = images ?s @ map to_image decoded"
    by blast
  from pair have "sub = Split (Seed 0) 2 1"
    by (simp add: example_models_def token_models_def split_derivation_def upt_rec numeral_2_eq_2)
  with step rest show ?thesis
    by (auto simp: remove_bos_def)
qed

text \<open>Claim C9. With at least one device and models of the right shapes, the loop runs
  \<open>N div W\<close> times without an error and leaves \<open>W * (N div W)\<close> images: \<open>N mod W\<close> fewer
  than asked for, so fewer than \<open>N\<close> when \<open>W\<close> does not divide \<open>N\<close>, and none at all, after
  no turn of the loop, when \<open>N < W\<close>.\<close>

theorem remainder_dropped:
  assumes "0 < W" and "well_shaped m"
  shows "\<exists>tok s. shard_tokens W (tokenized_prompt m W prompt) = Inr tok
           \<and> generate_images m W tok (PRNGKey m seed) N = Inr s
           \<and> length (iterations s) = N div W
           \<and> length (images s) = W * (N div W)
           \<and> length (images s) + N mod W = N
           \<and> (\<not> W dvd N \<longrightarrow> length (images s) < N)
           \<and> (N < W \<longrightarrow> iterations s = [] \<and> images s = [])"
proof -
  from notebook_generation [OF assms, of prompt seed N] obtain tok s
    where tok: "shard_tokens W (tokenized_prompt m W prompt) = Inr tok"
      and gen: "generate_images m W tok (PRNGKey m seed) N = Inr s"
      and imgs: "length (images s) = N div W * W"
      and its: "length (iterations s) = N div W"
    by blast
  from imgs have a: "length (images s) = W * (N div W)"
    by (simp add: mult.commute)
  then have b: "length (images s) + N mod W = N"
    by simp
  have c: "\<not> W dvd N \<longrightarrow> length (images s) < N"
  proof
    assume "\<not> W dvd N"
    then have "0 < N mod W"
      by (simp add: dvd_eq_mod_eq_0)
    with b show "length (images s) < N"
      by arith
  qed
  have d: "N < W \<longrightarrow> iterations s = [] \<and> images s = []"
    using its imgs by auto
  from tok gen its a b c d show ?thesis
    by blast
qed

theorem remainder_dropped_witness:
  "(0 :: nat) < 4 \<and> well_shaped example_models
   \<and> (\<exists>tok s. shard_tokens 4 (tokenized_prompt example_models 4 ''a red T-shirt'') = Inr tok
           \<and> generate_images example_models 4 tok (PRNGKey example_models 0) 10 = Inr s
           \<and> length (iterations s) = 2
           \<and> length (images s) = 8)
   \<and> \<not> (4 :: nat) dvd 10
   \<and> (3 :: nat) < 4
   \<and> (\<exists>tok s. shard_tokens 4 (tokenized_prompt example_models 4 ''a red T-shirt'') = Inr tok
           \<and> generate_images example_models 4 tok (PRNGKey example_models 0) 3 = Inr s
           \<and> iterations s = [] \<and> images s = [])"
proof -
  have W: "(0 :: nat) < 4"
    by simp
  from remainder_dropped [OF W well_shaped_example, of "''a red T-shirt''" 0 10]
  have "\<exists>tok s. shard_tokens 4 (tokenized_prompt example_models 4 ''a red T-shirt'') = Inr tok
           \<and> generate_images example_models 4 tok (PRNGKey example_models 0) 10 = Inr s
           \<and> length (iterations s) = 2
           \<and> length (images s) = 8"
    by auto
  moreover from remainder_dropped [OF W well_shaped_example, of "''a red T-shirt''" 0 3]
  have "\<exists>tok s. shard_tokens 4 (tokenized_prompt example_models 4 ''a red T-shirt'') = Inr tok
           \<and> generate_images example_models 4 tok (PRNGKey example_models 0) 3 = Inr s
           \<and> iterations s = [] \<and> images s = []"
    by auto
  ultimately show ?thesis
    using W well_shaped_example by simp
qed

section \<open>Scoring\<close>

lemma map_device_slices:
  "length rows = W \<Longrightarrow> map (\<lambda>d. G (replicate W x ! d) (replicate W y ! d) (rows ! d)) [0..<W] = map (G x y) rows"
  by (auto intro!: nth_equalityI)

lemma logits_per_image_one_text:
  "logits_per_image m \<lparr>input_ids = [ids], attention_mask = [am], pixel_values = px\<rparr>
     = map (\<lambda>img. [clip_logit m (ids, am) img]) px"
  by (simp add: logits_per_image_def)

lemma clip_scores_empty: "clip_scores m W prompt [] = Inl IndexError"
  by (simp add: clip_scores_def clip_inputs_def)

lemma clip_scores_eq:
  assumes "0 < W" and "W dvd length imgs" and "imgs \<noteq> []"
  shows "clip_scores m W prompt imgs =
           Inr (map (\<lambda>img. clip_logit m (encode_ids (processor_tokenizer m) 77 prompt,
                                          encode_mask (processor_tokenizer m) 77 prompt)
                               (feature_extractor m img)) imgs)"
proof -
  let ?ids = "encode_ids (processor_tokenizer m) 77 prompt"
  let ?am = "encode_mask (processor_tokenizer m) 77 prompt"
  let ?px = "map (feature_extractor m) imgs"
  let ?rows = "split_rows W (length imgs div W) ?px"
  have inputs: "clip_inputs m W prompt imgs =
      Inr \<lparr>input_ids = replicate W ?ids, attention_mask = replicate W ?am, pixel_values = ?px\<rparr>"
    using assms(3)
    by (simp add: clip_inputs_def processor_text_def tokenizer_call_replicate Let_def)
  have sharded: "shard_clip W
        \<lparr>input_ids = replicate W ?ids, attention_mask = replicate W ?am, pixel_values = ?px\<rparr> =
      Inr \<lparr>input_ids = replicate W [?ids], attention_mask = replicate W [?am],
           pixel_values = ?rows\<rparr>"
  proof -
    from assms have "shard W ?px = Inr ?rows"
      using shard_dvd [of W ?px] by simp
    with assms(1) show ?thesis
      by (simp add: shard_clip_def shard_replicate)
  qed
  have "p_clip m \<lparr>input_ids = replicate W [?ids], attention_mask = replicate W [?am],
           pixel_values = ?rows\<rparr>
        = Inr (map (\<lambda>d. logits_per_image m
                     \<lparr>input_ids = replicate W [?ids] ! d,
                      attention_mask = replicate W [?am] ! d,
                      pixel_values = ?rows ! d\<rparr>) [0..<W])"
    by (simp add: p_clip_def length_split_rows)
  also have "map (\<lambda>d. logits_per_image m
                     \<lparr>input_ids = replicate W [?ids] ! d,
                      attention_mask = replicate W [?am] ! d,
                      pixel_values = ?rows ! d\<rparr>) [0..<W]
        = map (\<lambda>px. logits_per_image m
                     \<lparr>input_ids = [?ids], attention_mask = [?am], pixel_values = px\<rparr>) ?rows"
    by (rule map_device_slices) (simp add: length_split_rows)
  finally have pc: "p_clip m \<lparr>input_ids = replicate W [?ids], attention_mask = replicate W [?am],
           pixel_values = ?rows\<rparr>
        = Inr (map (map (\<lambda>img. [clip_logit m (?ids, ?am) img])) ?rows)"
    by (simp add: logits_per_image_one_text)
  from assms have "length ?px = W * (length imgs div W)"
    by simp
  then have "concat ?rows = ?px"
    by (rule concat_split_rows_exact)
  then have "squeeze_flatten (map (map (\<lambda>img. [clip_logit m (?ids, ?am) img])) ?rows)
        = map (\<lambda>img. clip_logit m (?ids, ?am) (feature_extractor m img)) imgs"
    by (simp add: squeeze_flatten_def map_concat [symmetric] comp_def)
  with inputs sharded pc show ?thesis
    by (simp add: clip_scores_def)
qed

lemma prompt_scores_nth:
  "i < length imgs \<Longrightarrow>
     prompt_scores m prompt imgs ! i =
       clip_logit m (encode_ids (processor_tokenizer m) 77 prompt,
                     encode_mask (processor_tokenizer m) 77 prompt)
         (feature_extractor m (imgs ! i))"
  by (simp add: prompt_scores_def)

lemma notebook_run:
  assumes "shard_tokens W (tokenized_prompt m W prompt) = Inr tok"
    and "generate_images m W tok (PRNGKey m seed) N = Inr s"
    and "0 < W" and "W dvd length (images s)" and "images s \<noteq> []"
  shows "notebook m W seed prompt N =
           Inr \<lparr>generated = s,
                logits = prompt_scores m prompt (images s),
                displayed = map (\<lambda>i. (images s ! i, prompt_scores m prompt (images s) ! i))
                              (ranked_indices (prompt_scores m prompt (images s)))\<rparr>"
proof -
  let ?scores = "prompt_scores m prompt (images s)"
  have sc: "clip_scores m W prompt (images s) = Inr ?scores"
    using assms(3,4,5) by (simp add: clip_scores_eq prompt_scores_def)
  have "\<forall>i \<in> set (ranked_indices ?scores). i < length (images s) \<and> i < length ?scores"
    by (simp add: set_ranked_indices prompt_scores_def)
  then have "display_ranked (images s) ?scores (ranked_indices ?scores)
      = Inr (map (\<lambda>i. (images s ! i, ?scores ! i)) (ranked_indices ?scores))"
    by (rule display_ranked_in_range)
  with assms(1,2) sc show ?thesis
    by (simp add: notebook_def)
qed

lemma processor_text_rows:
  "input_ids (processor_text m W prompt) = replicate W (encode_ids (processor_tokenizer m) 77 prompt)"
  "attention_mask (processor_text m W prompt) = replicate W (encode_mask (processor_tokenizer m) 77 prompt)"
  by (simp_all add: processor_text_def tokenizer_call_replicate)

lemma clip_inputs_cases:
  "clip_inputs m W prompt imgs =
     (if imgs = [] then Inl IndexError
      else Inr \<lparr>input_ids = input_ids (processor_text m W prompt),
               attention_mask = attention_mask (processor_text m W prompt),
               pixel_values = map (feature_extractor m) imgs\<rparr>)"
  by (simp add: clip_inputs_def Let_def)

lemma notebook_no_images:
  assumes "shard_tokens W (tokenized_prompt m W prompt) = Inr tok"
    and "generate_images m W tok (PRNGKey m seed) N = Inr s"
    and "images s = []"
  shows "notebook m W seed prompt N = Inl IndexError"
  using assms by (simp add: notebook_def clip_scores_empty)

lemma clip_inputs_normalizer:
  "clip_inputs (m\<lparr>normalize_text := b, text_normalizer := f\<rparr>) W prompt imgs = clip_inputs m W prompt imgs"
  by (simp add: clip_inputs_def processor_text_def Let_def)

lemma p_clip_normalizer:
  "p_clip (m\<lparr>normalize_text := b, text_normalizer := f\<rparr>) inputs = p_clip m inputs"
  by (simp add: p_clip_def logits_per_image_def)

lemma clip_scores_normalizer:
  "clip_scores (m\<lparr>normalize_text := b, text_normalizer := f\<rparr>) W prompt imgs = clip_scores m W prompt imgs"
  by (simp add: clip_scores_def clip_inputs_normalizer p_clip_normalizer split: sum.splits)

text \<open>Claim C7, amended. For every non-empty list of images whose length the device count
  divides, the scoring returns one score per image, score \<open>i\<close> being the similarity of
  the prompt and image \<open>i\<close>; the images the notebook generates when \<open>n_predictions\<close> is at
  least the device count are such a list, so its scores are as many as its images and
  aligned with them. For the empty list of images the processor raises
  \<^verbatim>\<open>IndexError\<close> and there are no scores: a notebook run with fewer predictions than
  devices generates no image and stops at the scoring cell.\<close>

theorem scores_aligned_with_images:
  "(imgs \<noteq> [] \<and> W dvd length imgs \<longrightarrow>
      (\<exists>scores. clip_scores m W prompt imgs = Inr scores
         \<and> length scores = length imgs
         \<and> (\<forall>i < length imgs.
               scores ! i = clip_logit m (encode_ids (processor_tokenizer m) 77 prompt,
                                          encode_mask (processor_tokenizer m) 77 prompt)
                              (feature_extractor m (imgs ! i)))))
   \<and> (0 < W \<and> W \<le> N \<and> well_shaped m \<longrightarrow>
      (\<exists>r. notebook m W seed prompt N = Inr r
         \<and> images (generated r) \<noteq> []
         \<and> clip_scores m W prompt (images (generated r)) = Inr (logits r)
         \<and> length (logits r) = length (images (generated r))
         \<and> (\<forall>i < length (images (generated r)).
               logits r ! i = clip_logit m (encode_ids (processor_tokenizer m) 77 prompt,
                                            encode_mask (processor_tokenizer m) 77 prompt)
                                (feature_extractor m (images (generated r) ! i)))))
   \<and> clip_scores m W prompt [] = Inl IndexError
   \<and> (0 < W \<and> N < W \<and> well_shaped m \<longrightarrow> notebook m W seed prompt N = Inl IndexError)"
proof -
  have scored: "\<exists>scores. clip_scores m W prompt imgs = Inr scores
         \<and> length scores = length imgs
         \<and> (\<forall>i < length imgs.
               scores ! i = clip_logit m (encode_ids (processor_tokenizer m) 77 prompt,
                                          encode_mask (processor_tokenizer m) 77 prompt)
                              (feature_extractor m (imgs ! i)))"
    if a: "imgs \<noteq> [] \<and> W dvd length imgs"
  proof -
    from a have "0 < W"
      by (auto intro: Nat.gr0I)
    with a have "clip_scores m W prompt imgs = Inr (prompt_scores m prompt imgs)"
      by (simp add: clip_scores_eq prompt_scores_def)
    moreover have "length (prompt_scores m prompt imgs) = length imgs"
      by (simp add: prompt_scores_def)
    ultimately show ?thesis
      using prompt_scores_nth by blast
  qed
  have run: "\<exists>r. notebook m W seed prompt N = Inr r
         \<and> images (generated r) \<noteq> []
         \<and> clip_scores m W prompt (images (generated r)) = Inr (logits r)
         \<and> length (logits r) = length (images (generated r))
         \<and> (\<forall>i < length (images (generated r)).
               logits r ! i = clip_logit m (encode_ids (processor_tokenizer m) 77 prompt,
                                            encode_mask (processor_tokenizer m) 77 prompt)
                                (feature_extractor m (images (generated r) ! i)))"
    if a: "0 < W \<and> W \<le> N \<and> well_shaped m"
  proof -
    from a have W: "0 < W" and ws: "well_shaped m"
      by simp_all
    from notebook_generation [OF W ws, of prompt seed N] obtain tok s
      where tok: "shard_tokens W (tokenized_prompt m W prompt) = Inr tok"
        and gen: "generate_images m W tok (PRNGKey m seed) N = Inr s"
        and imgs: "length (images s) = N div W * W"
      by blast
    from a have "0 < N div W"
      by (simp add: div_greater_zero_iff)
    with imgs W have ne: "images s \<noteq> []"
      by auto
    from imgs have dvd: "W dvd length (images s)"
      by simp
    from notebook_run [OF tok gen W dvd ne]
    have run: "notebook m W seed prompt N =
             Inr \<lparr>generated = s,
                  logits = prompt_scores m prompt (images s),
                  displayed = map (\<lambda>i. (images s ! i, prompt_scores m prompt (images s) ! i))
                                (ranked_indices (prompt_scores m prompt (images s)))\<rparr>" .
    have sc: "clip_scores m W prompt (images s) = Inr (prompt_scores m prompt (images s))"
      using W dvd ne by (simp add: clip_scores_eq prompt_scores_def)
    have len: "length (prompt_scores m prompt (images s)) = length (images s)"
      by (simp add: prompt_scores_def)
    show ?thesis
      using run ne sc len prompt_scores_nth [of _ "images s" m prompt] by simp
  qed
  have none: "notebook m W seed prompt N = Inl IndexError"
    if a: "0 < W \<and> N < W \<and> well_shaped m"
  proof -
    from a have W: "0 < W" and ws: "well_shaped m"
      by simp_all
    from notebook_generation [OF W ws, of prompt seed N] obtain tok s
      where tok: "shard_tokens W (tokenized_prompt m W prompt) = Inr tok"
        and gen: "generate_images m W tok (PRNGKey m seed) N = Inr s"
        and imgs: "length (images s) = N div W * W"
      by blast
    from a imgs have "images s = []"
      by simp
    with tok gen show ?thesis
      by (rule notebook_no_images)
  qed
  from scored run none show ?thesis
    by (simp only: clip_scores_empty) blast
qed

theorem scores_aligned_with_images_witness:
  "[[1, 2], [3, 4], [5], [6 :: nat]] \<noteq> [] \<and> 2 dvd length [[1, 2], [3, 4], [5], [6 :: nat]]
   \<and> clip_scores example_models 2 ''a red T-shirt'' [[1, 2], [3, 4], [5], [6]]
       = Inr [1, 3, 5, 6]
   \<and> (0 :: nat) < 2 \<and> (2 :: nat) \<le> 8 \<and> well_shaped example_models
   \<and> (\<exists>r. notebook example_models 2 0 ''a red T-shirt'' 8 = Inr r
          \<and> length (logits r) = length (images (generated r)))
   \<and> (8 :: nat) < 16
   \<and> notebook example_models 16 0 ''a red T-shirt'' 8 = Inl IndexError"
proof -
  have len4: "length [[1, 2], [3, 4], [5], [6 :: nat]] = 4"
    by simp
  have h: "[[1, 2], [3, 4], [5], [6 :: nat]] \<noteq> [] \<and> 2 dvd length [[1, 2], [3, 4], [5], [6 :: nat]]"
    unfolding len4 by simp
  have g: "(0 :: nat) < 2 \<and> (2 :: nat) \<le> 8 \<and> well_shaped example_models"
    by (simp add: well_shaped_example)
  from scores_aligned_with_images [where imgs = "[[1, 2], [3, 4], [5], [6]]" and W = 2
      and m = example_models and prompt = "''a red T-shirt''" and N = 8 and seed = 0] h g
  obtain scores r
    where s: "clip_scores example_models 2 ''a red T-shirt'' [[1, 2], [3, 4], [5], [6]] = Inr scores"
      and r: "notebook example_models 2 0 ''a red T-shirt'' 8 = Inr r"
        "length (logits r) = length (images (generated r))"
    by blast
  have "clip_scores example_models 2 ''a red T-shirt'' [[1, 2], [3, 4], [5], [6]]
      = Inr [1, 3, 5, 6]"
    using h clip_scores_eq [of 2 "[[1, 2], [3, 4], [5], [6]]" example_models "''a red T-shirt''"]
    by (simp add: example_models_def token_models_def)
  moreover have k: "(0 :: nat) < 16 \<and> (8 :: nat) < 16 \<and> well_shaped example_models"
    by (simp add: well_shaped_example)
  moreover from scores_aligned_with_images [where W = 16 and m = example_models
      and prompt = "''a red T-shirt''" and N = 8 and seed = 0] k
  have "notebook example_models 16 0 ''a red T-shirt'' 8 = Inl IndexError"
    by blast
  ultimately show ?thesis
    using r h g by blast
qed

text \<open>Claim C7 as stated fails for the empty list of generated images. With 4 devices and
  3 predictions the loop runs \<open>3 div 4 = 0\<close> times and the list of generated images is
  empty; the scoring of that list returns no sequence of scores but raises
  \<^verbatim>\<open>IndexError\<close>, and so does the notebook.\<close>

theorem scores_empty_list_counterexample:
  "generate_images example_models 4
       \<lparr>input_ids = replicate 4 [encode_ids (tokenizer example_models) 128
                                  (processed_prompt example_models ''a red T-shirt'')],
        attention_mask = replicate 4 [encode_mask (tokenizer example_models) 128
                                       (processed_prompt example_models ''a red T-shirt'')]\<rparr>
       (PRNGKey example_models 0) 3
     = Inr \<lparr>key = Seed 0, images = [], iterations = []\<rparr>
   \<and> clip_scores example_models 4 ''a red T-shirt'' [] = Inl IndexError
   \<and> notebook example_models 4 0 ''a red T-shirt'' 3 = Inl IndexError"
proof -
  have W: "(0 :: nat) < 4"
    by simp
  have key0: "PRNGKey example_models 0 = Seed 0"
    by (simp add: example_models_def token_models_def)
  have gen: "generate_images example_models 4
       \<lparr>input_ids = replicate 4 [encode_ids (tokenizer example_models) 128
                                  (processed_prompt example_models ''a red T-shirt'')],
        attention_mask = replicate 4 [encode_mask (tokenizer example_models) 128
                                       (processed_prompt example_models ''a red T-shirt'')]\<rparr>
       (PRNGKey example_models 0) 3
     = Inr \<lparr>key = Seed 0, images = [], iterations = []\<rparr>"
    by (simp add: generate_images_def key0)
  have "images \<lparr>key = Seed 0, images = [], iterations = []\<rparr> = []"
    by simp
  with shard_tokens_prompt [OF W] gen
  have "notebook example_models 4 0 ''a red T-shirt'' 3 = Inl IndexError"
    by (rule notebook_no_images)
  with gen show ?thesis
    by (simp only: clip_scores_empty)
qed

text \<open>Claim C10. The scoring tokenizes the prompt as typed, to 77 tokens, and these rows
  are the text part of the scoring's inputs whenever there is an image to score, while the
  generation tokenizes the processed prompt to 128: switching the text normalizer on or
  off, or changing it, changes neither the scoring's inputs nor the scores. When the
  prompt's tokenization, special tokens included, is longer than 77, the scoring's tokens
  are the first 75 tokens of the prompt between the special tokens, which is not the whole
  tokenization, and the scores are the similarities to that cut prompt.\<close>

theorem scoring_prompt_raw_77:
  "input_ids (processor_text m W prompt)
      = replicate W (encode_ids (processor_tokenizer m) 77 prompt)
   \<and> attention_mask (processor_text m W prompt)
      = replicate W (encode_mask (processor_tokenizer m) 77 prompt)
   \<and> clip_inputs m W prompt imgs
      = (if imgs = [] then Inl IndexError
         else Inr \<lparr>input_ids = input_ids (processor_text m W prompt),
                  attention_mask = attention_mask (processor_text m W prompt),
                  pixel_values = map (feature_extractor m) imgs\<rparr>)
   \<and> length (encode_ids (processor_tokenizer m) 77 prompt) = 77
   \<and> input_ids (tokenized_prompt m W prompt)
      = replicate W (encode_ids (tokenizer m) 128 (processed_prompt m prompt))
   \<and> clip_inputs (m\<lparr>normalize_text := b, text_normalizer := f\<rparr>) W prompt imgs
      = clip_inputs m W prompt imgs
   \<and> clip_scores (m\<lparr>normalize_text := b, text_normalizer := f\<rparr>) W prompt imgs
      = clip_scores m W prompt imgs
   \<and> (77 < length (with_special_tokens (processor_tokenizer m)
                      (tokenize (processor_tokenizer m) prompt)) \<longrightarrow>
        encode_ids (processor_tokenizer m) 77 prompt
          = with_special_tokens (processor_tokenizer m)
              (take 75 (tokenize (processor_tokenizer m) prompt))
        \<and> encode_ids (processor_tokenizer m) 77 prompt
          \<noteq> with_special_tokens (processor_tokenizer m) (tokenize (processor_tokenizer m) prompt)
        \<and> (imgs \<noteq> [] \<and> W dvd length imgs \<longrightarrow>
             clip_scores m W prompt imgs
               = Inr (map (\<lambda>img. clip_logit m
                                   (with_special_tokens (processor_tokenizer m)
                                      (take 75 (tokenize (processor_tokenizer m) prompt)),
                                    replicate 77 1)
                                   (feature_extractor m img)) imgs)))"
proof -
  let ?tk = "processor_tokenizer m"
  have trunc: "encode_ids ?tk 77 prompt = with_special_tokens ?tk (take 75 (tokenize ?tk prompt))
        \<and> encode_ids ?tk 77 prompt \<noteq> with_special_tokens ?tk (tokenize ?tk prompt)
        \<and> (imgs \<noteq> [] \<and> W dvd length imgs \<longrightarrow>
             clip_scores m W prompt imgs
               = Inr (map (\<lambda>img. clip_logit m
                                   (with_special_tokens ?tk (take 75 (tokenize ?tk prompt)),
                                    replicate 77 1)
                                   (feature_extractor m img)) imgs))"
    if long: "77 < length (with_special_tokens ?tk (tokenize ?tk prompt))"
  proof -
    from encode_truncated [of 77 ?tk prompt] long
    have ids: "encode_ids ?tk 77 prompt = with_special_tokens ?tk (take 75 (tokenize ?tk prompt))"
      and am: "encode_mask ?tk 77 prompt = replicate 77 1"
      by simp_all
    have "length (encode_ids ?tk 77 prompt) = 77"
      by (simp add: length_encode_ids)
    with long have ne: "encode_ids ?tk 77 prompt \<noteq> with_special_tokens ?tk (tokenize ?tk prompt)"
      by auto
    have "clip_scores m W prompt imgs
               = Inr (map (\<lambda>img. clip_logit m
                                   (with_special_tokens ?tk (take 75 (tokenize ?tk prompt)),
                                    replicate 77 1)
                                   (feature_extractor m img)) imgs)"
      if "imgs \<noteq> [] \<and> W dvd length imgs"
    proof -
      from that have "0 < W"
        by (auto intro: Nat.gr0I)
      with that show ?thesis
        using clip_scores_eq [of W imgs m prompt] by (simp add: ids [symmetric] am [symmetric])
    qed
    with ids ne show ?thesis
      by blast
  qed
  have gen: "input_ids (tokenized_prompt m W prompt)
      = replicate W (encode_ids (tokenizer m) 128 (processed_prompt m prompt))"
    by (simp add: tokenized_prompt_def tokenizer_call_replicate)
  have len: "length (encode_ids ?tk 77 prompt) = 77"
    by (simp add: length_encode_ids)
  from trunc have trunc': "77 < length (with_special_tokens ?tk (tokenize ?tk prompt)) \<longrightarrow>
        encode_ids ?tk 77 prompt = with_special_tokens ?tk (take 75 (tokenize ?tk prompt))
        \<and> encode_ids ?tk 77 prompt \<noteq> with_special_tokens ?tk (tokenize ?tk prompt)
        \<and> (imgs \<noteq> [] \<and> W dvd length imgs \<longrightarrow>
             clip_scores m W prompt imgs
               = Inr (map (\<lambda>img. clip_logit m
                                   (with_special_tokens ?tk (take 75 (tokenize ?tk prompt)),
                                    replicate 77 1)
                                   (feature_extractor m img)) imgs))"
    by blast
  show ?thesis
    by (intro conjI)
      (rule processor_text_rows clip_inputs_cases gen len clip_inputs_normalizer
         clip_scores_normalizer trunc')+
qed

theorem scoring_prompt_raw_77_witness:
  "77 < length (with_special_tokens (processor_tokenizer example_models)
                  (tokenize (processor_tokenizer example_models) (replicate 100 CHR ''a'')))
   \<and> [[1, 2], [3 :: nat]] \<noteq> [] \<and> 2 dvd length [[1, 2], [3 :: nat]]
   \<and> input_ids (processor_text example_models 2 (replicate 100 CHR ''a''))
       = replicate 2 (0 # replicate 75 97 @ [2])
   \<and> clip_scores example_models 2 (replicate 100 CHR ''a'') [[1, 2], [3]]
       = Inr (map (\<lambda>img. clip_logit example_models (0 # replicate 75 97 @ [2], replicate 77 1)
                             (feature_extractor example_models img)) [[1, 2], [3]])"
proof -
  have tk: "processor_tokenizer example_models = char_tokenizer"
    by (simp add: example_models_def token_models_def)
  have long: "77 < length (with_special_tokens (processor_tokenizer example_models)
                  (tokenize (processor_tokenizer example_models) (replicate 100 CHR ''a'')))"
    by (simp add: tk tokenize_example_long length_with_special_tokens)
  have len2: "length [[1, 2], [3 :: nat]] = 2"
    by simp
  have imgs: "[[1, 2], [3 :: nat]] \<noteq> [] \<and> 2 dvd length [[1, 2], [3 :: nat]]"
    unfolding len2 by simp
  have row: "with_special_tokens char_tokenizer (take 75 (replicate 100 97))
      = 0 # replicate 75 97 @ [2]"
    by (simp add: with_special_tokens_def char_tokenizer_def)
  from scoring_prompt_raw_77 [where m = example_models and W = 2
      and prompt = "replicate 100 CHR ''a''" and imgs = "[[1, 2], [3]]"] long imgs
  have "input_ids (processor_text example_models 2 (replicate 100 CHR ''a''))
       = replicate 2 (with_special_tokens char_tokenizer (take 75 (replicate 100 97)))
     \<and> clip_scores example_models 2 (replicate 100 CHR ''a'') [[1, 2], [3]]
       = Inr (map (\<lambda>img. clip_logit example_models
                     (with_special_tokens char_tokenizer (take 75 (replicate 100 97)), replicate 77 1)
                             (feature_extractor example_models img)) [[1, 2], [3]])"
    by (simp only: tk tokenize_example_long) blast
  with long imgs show ?thesis
    by (simp only: row) blast
qed

section \<open>Runs of the example models\<close>














section \<open>From the prompt to the ranked images\<close>





section \<open>The random keys of a run\<close>

lemma key_schedule:
  assumes "length its = n" and "\<forall>i < n. iteration_ok m W (carried_key m k i) (its ! i)"
  shows "map subkey its = map (\<lambda>i. random_split m (carried_key m k i) 2 ! 1) [0..<n]"
    and "map device_keys its
           = map (\<lambda>i. shard_prng_key m W (random_split m (carried_key m k i) 2 ! 1)) [0..<n]"
  using assms by (auto intro!: nth_equalityI simp: iteration_ok_def)

lemma carried_key_splittable:
  assumes "splittable m"
  shows "carried_key m k i = ((\<lambda>k. Split k 2 0) ^^ i) k"
proof (induction i arbitrary: k)
  case 0
  show ?case
    by simp
next
  case (Suc i)
  from assms have "random_split m k 2 ! 0 = Split k 2 0"
    by (simp add: splittable_def split_derivation_def)
  then have "carried_key m k (Suc i) = ((\<lambda>k. Split k 2 0) ^^ i) (Split k 2 0)"
    by (simp add: Suc.IH)
  then show ?case
    using funpow_swap1 [of "\<lambda>k. Split k 2 0" i k] by simp
qed

lemma subkey_splittable: "splittable m \<Longrightarrow> random_split m k 2 ! 1 = Split k 2 1"
  by (simp add: splittable_def split_derivation_def)

lemma shard_prng_key_splittable:
  "splittable m \<Longrightarrow> shard_prng_key m W k = map (Split k W) [0..<W]"
  by (simp add: shard_prng_key_def splittable_def split_derivation_def)

lemma distinct_shard_prng_key: "splittable m \<Longrightarrow> distinct (shard_prng_key m W k)"
  by (simp add: shard_prng_key_splittable distinct_map inj_on_def)

lemma size_chain: "size (((\<lambda>k. Split k 2 0) ^^ i) k) = size k + i"
  by (induction i) simp_all

lemma chain_inj:
  assumes "((\<lambda>k. Split k 2 0) ^^ i) k = ((\<lambda>k. Split k 2 0) ^^ j) k"
  shows "i = j"
proof -
  from assms have "size (((\<lambda>k. Split k 2 0) ^^ i) k) = size (((\<lambda>k. Split k 2 0) ^^ j) k)"
    by (rule arg_cong)
  then have "size k + i = size k + j"
    by (simp only: size_chain)
  then show ?thesis
    by arith
qed

lemma distinct_subkeys: "distinct (map (\<lambda>i. Split (((\<lambda>k. Split k 2 0) ^^ i) k) 2 1) [0..<n])"
  by (auto simp: distinct_map inj_on_def dest: chain_inj)

lemma splittable_schedule:
  assumes "splittable m" and "length its = n"
    and "\<forall>i < n. iteration_ok m W (carried_key m (PRNGKey m seed) i) (its ! i)"
  shows "map subkey its = map (\<lambda>i. Split (((\<lambda>k. Split k 2 0) ^^ i) (Seed seed)) 2 1) [0..<n]"
    and "map device_keys its
           = map (\<lambda>i. map (Split (Split (((\<lambda>k. Split k 2 0) ^^ i) (Seed seed)) 2 1) W) [0..<W]) [0..<n]"
proof -
  from assms(1) have seed: "PRNGKey m seed = Seed seed"
    by (simp add: splittable_def)
  show "map subkey its = map (\<lambda>i. Split (((\<lambda>k. Split k 2 0) ^^ i) (Seed seed)) 2 1) [0..<n]"
    unfolding key_schedule(1) [OF assms(2,3)]
    by (simp only: seed subkey_splittable [OF assms(1)] carried_key_splittable [OF assms(1)])
  show "map device_keys its
           = map (\<lambda>i. map (Split (Split (((\<lambda>k. Split k 2 0) ^^ i) (Seed seed)) 2 1) W) [0..<W]) [0..<n]"
    unfolding key_schedule(2) [OF assms(2,3)]
    by (simp only: seed subkey_splittable [OF assms(1)] carried_key_splittable [OF assms(1)]
        shard_prng_key_splittable [OF assms(1)])
qed

lemma device_keys_distinct:
  assumes "well_shaped m" and "splittable m" and "length its = n"
    and "\<forall>i < n. iteration_ok m W (k i) (its ! i)"
  shows "list_all (\<lambda>it. device_keys it = shard_prng_key m W (subkey it)
                         \<and> length (device_keys it) = W
                         \<and> distinct (device_keys it)) its"
  using assms unfolding list_all_length iteration_ok_def
  by (simp add: length_shard_prng_key distinct_shard_prng_key)

lemma splittable_token: "splittable (token_models t)"
  by (simp add: splittable_def token_models_def)

lemma splittable_example: "splittable example_models"
  by (simp add: example_models_def splittable_token)

lemma splittable_varied: "splittable varied_models"
  by (simp add: varied_models_def splittable_token)

text \<open>Claim C8, for the splittable generator. Two runs from the same seed, whatever their
  models and prompts, draw the same sub-key in every turn of the loop and hand the same
  keys to the devices: the sub-key of turn \<open>i\<close> is the second half of the split of the key
  carried into turn \<open>i\<close>, which is the seed's key split \<open>i\<close> times, first halves kept. Every
  turn splits its sub-key into exactly \<open>W\<close> device keys, no two of them equal, and no two
  turns draw the same sub-key.\<close>

theorem key_schedule_reproducible:
  assumes "0 < W" and "well_shaped m" and "well_shaped m'" and "splittable m" and "splittable m'"
  shows "\<exists>tok s tok' s'.
           shard_tokens W (tokenized_prompt m W prompt) = Inr tok
           \<and> generate_images m W tok (PRNGKey m seed) N = Inr s
           \<and> shard_tokens W (tokenized_prompt m' W prompt') = Inr tok'
           \<and> generate_images m' W tok' (PRNGKey m' seed) N = Inr s'
           \<and> map subkey (iterations s)
               = map (\<lambda>i. Split (((\<lambda>k. Split k 2 0) ^^ i) (Seed seed)) 2 1) [0..<N div W]
           \<and> map subkey (iterations s') = map subkey (iterations s)
           \<and> map device_keys (iterations s') = map device_keys (iterations s)
           \<and> list_all (\<lambda>it. device_keys it = shard_prng_key m W (subkey it)
                              \<and> length (device_keys it) = W
                              \<and> distinct (device_keys it)) (iterations s)
           \<and> distinct (map subkey (iterations s))"
proof -
  from notebook_generation [OF assms(1,2), of prompt seed N] obtain tok s
    where run: "shard_tokens W (tokenized_prompt m W prompt) = Inr tok"
      "generate_images m W tok (PRNGKey m seed) N = Inr s"
      and its: "length (iterations s) = N div W"
      and ok: "\<forall>i < N div W. iteration_ok m W (carried_key m (PRNGKey m seed) i) (iterations s ! i)"
    by blast
  from notebook_generation [OF assms(1,3), of prompt' seed N] obtain tok' s'
    where run': "shard_tokens W (tokenized_prompt m' W prompt') = Inr tok'"
      "generate_images m' W tok' (PRNGKey m' seed) N = Inr s'"
      and its': "length (iterations s') = N div W"
      and ok': "\<forall>i < N div W. iteration_ok m' W (carried_key m' (PRNGKey m' seed) i) (iterations s' ! i)"
    by blast
  note sched = splittable_schedule [OF assms(4) its ok]
  note sched' = splittable_schedule [OF assms(5) its' ok']
  have dist: "distinct (map subkey (iterations s))"
    by (simp only: sched(1) distinct_subkeys)
  have same: "map subkey (iterations s') = map subkey (iterations s)"
    "map device_keys (iterations s') = map device_keys (iterations s)"
    by (simp_all only: sched sched')
  note shape = device_keys_distinct [OF assms(2,4) its ok]
  show ?thesis
    by (intro exI conjI) (rule run run' sched(1) same shape dist)+
qed

theorem key_schedule_reproducible_witness:
  "(0 :: nat) < 4 \<and> well_shaped varied_models \<and> well_shaped example_models
   \<and> splittable varied_models \<and> splittable example_models
   \<and> (\<exists>tok s tok' s'.
           shard_tokens 4 (tokenized_prompt varied_models 4 ''a red T-shirt'') = Inr tok
           \<and> generate_images varied_models 4 tok (PRNGKey varied_models 42) 8 = Inr s
           \<and> shard_tokens 4 (tokenized_prompt example_models 4 ''a blue hat'') = Inr tok'
           \<and> generate_images example_models 4 tok' (PRNGKey example_models 42) 8 = Inr s'
           \<and> map subkey (iterations s)
               = [Split (Seed 42) 2 1, Split (Split (Seed 42) 2 0) 2 1]
           \<and> map subkey (iterations s') = map subkey (iterations s)
           \<and> map device_keys (iterations s') = map device_keys (iterations s)
           \<and> list_all (\<lambda>it. device_keys it = shard_prng_key varied_models 4 (subkey it)
                              \<and> length (device_keys it) = 4
                              \<and> distinct (device_keys it)) (iterations s)
           \<and> distinct (map subkey (iterations s)))"
proof -
  have W: "(0 :: nat) < 4"
    by simp
  have sched: "map (\<lambda>i. Split (((\<lambda>k. Split k 2 0) ^^ i) (Seed 42)) 2 1) [0..<8 div 4]
      = [Split (Seed 42) 2 1, Split (Split (Seed 42) 2 0) 2 1]"
    by (simp add: upt_rec numeral_2_eq_2)
  from key_schedule_reproducible [OF W well_shaped_varied well_shaped_example
      splittable_varied splittable_example, of "''a red T-shirt''" 42 8 "''a blue hat''"]
  obtain tok s tok' s' where
    r: "shard_tokens 4 (tokenized_prompt varied_models 4 ''a red T-shirt'') = Inr tok"
      "generate_images varied_models 4 tok (PRNGKey varied_models 42) 8 = Inr s"
      "shard_tokens 4 (tokenized_prompt example_models 4 ''a blue hat'') = Inr tok'"
      "generate_images example_models 4 tok' (PRNGKey example_models 42) 8 = Inr s'"
    and k: "map subkey (iterations s)
               = map (\<lambda>i. Split (((\<lambda>k. Split k 2 0) ^^ i) (Seed 42)) 2 1) [0..<8 div 4]"
    and same: "map subkey (iterations s') = map subkey (iterations s)"
      "map device_keys (iterations s') = map device_keys (iterations s)"
    and shape: "list_all (\<lambda>it. device_keys it = shard_prng_key varied_models 4 (subkey it)
                              \<and> length (device_keys it) = 4
                              \<and> distinct (device_keys it)) (iterations s)"
    and dist: "distinct (map subkey (iterations s))"
    by (elim exE conjE)
  from k have k': "map subkey (iterations s)
      = [Split (Seed 42) 2 1, Split (Split (Seed 42) 2 0) 2 1]"
    by (simp only: sched)
  show ?thesis
    by (intro exI conjI)
      (rule W well_shaped_varied well_shaped_example splittable_varied splittable_example r k' same shape dist)+
qed

end
